theory Spec2Isabelle
  imports Complex_Main "HOL-Library.Monad_Syntax"
begin

text \<open>
  The optimizer of \<^verbatim>\<open>src/novograd.js\<close>: the class \<^verbatim>\<open>NovoGrad\<close> with its constructor
  and its method \<^verbatim>\<open>step\<close>, over the numbers of the language and the tensors of the
  library that the source calls.
\<close>

section \<open>JavaScript numbers\<close>

text \<open>
  The numbers of the program are JavaScript numbers. They are modelled as exact reals
  extended with the three special values of the language: the two infinities, which a
  division by zero produces, and NaN. Rounding, overflow and the sign of zero are not
  modelled: a zero is the positive zero.
\<close>

datatype jsnum = Fin real | PInf | NInf | NaN

fun js_neg :: "jsnum \<Rightarrow> jsnum" where
  "js_neg (Fin a) = Fin (- a)"
| "js_neg PInf = NInf"
| "js_neg NInf = PInf"
| "js_neg NaN = NaN"

fun js_abs :: "jsnum \<Rightarrow> jsnum" where
  "js_abs (Fin a) = Fin \<bar>a\<bar>"
| "js_abs PInf = PInf"
| "js_abs NInf = PInf"
| "js_abs NaN = NaN"

fun js_add :: "jsnum \<Rightarrow> jsnum \<Rightarrow> jsnum" where
  "js_add (Fin a) (Fin b) = Fin (a + b)"
| "js_add NaN _ = NaN"
| "js_add _ NaN = NaN"
| "js_add PInf NInf = NaN"
| "js_add NInf PInf = NaN"
| "js_add PInf _ = PInf"
| "js_add _ PInf = PInf"
| "js_add NInf _ = NInf"
| "js_add _ NInf = NInf"

definition js_sub :: "jsnum \<Rightarrow> jsnum \<Rightarrow> jsnum" where
  "js_sub a b = js_add a (js_neg b)"

fun js_mul :: "jsnum \<Rightarrow> jsnum \<Rightarrow> jsnum" where
  "js_mul (Fin a) (Fin b) = Fin (a * b)"
| "js_mul NaN _ = NaN"
| "js_mul _ NaN = NaN"
| "js_mul (Fin a) i = (if a = 0 then NaN else if 0 < a then i else js_neg i)"
| "js_mul i (Fin b) = (if b = 0 then NaN else if 0 < b then i else js_neg i)"
| "js_mul PInf i = i"
| "js_mul NInf i = js_neg i"

fun js_div :: "jsnum \<Rightarrow> jsnum \<Rightarrow> jsnum" where
  "js_div (Fin a) (Fin b) =
     (if b = 0 then (if a = 0 then NaN else if 0 < a then PInf else NInf)
      else Fin (a / b))"
| "js_div NaN _ = NaN"
| "js_div _ NaN = NaN"
| "js_div (Fin a) _ = Fin 0"
| "js_div i (Fin b) = (if 0 \<le> b then i else js_neg i)"
| "js_div _ _ = NaN"

text \<open>\<^verbatim>\<open>Math.sqrt\<close>.\<close>

fun js_sqrt :: "jsnum \<Rightarrow> jsnum" where
  "js_sqrt (Fin a) = (if a < 0 then NaN else Fin (sqrt a))"
| "js_sqrt PInf = PInf"
| "js_sqrt NInf = NaN"
| "js_sqrt NaN = NaN"

text \<open>
  \<^verbatim>\<open>Math.pow(x, n)\<close> for an exponent that is a natural number (the program only
  raises to \<^verbatim>\<open>step + 1\<close>): the result is 1 at exponent 0, whatever the base.
\<close>

fun js_pow :: "jsnum \<Rightarrow> nat \<Rightarrow> jsnum" where
  "js_pow x 0 = Fin 1"
| "js_pow x (Suc n) = js_mul x (js_pow x n)"

section \<open>The tensor engine\<close>

text \<open>
  Tensors are the values of the external library \<^verbatim>\<open>tf\<close>. A tensor is immutable: every
  operation returns a new one. The model covers tensors of rank 0 and of rank 1.
\<close>

datatype tensor = Scalar jsnum | Vec "jsnum list"

fun tf_map :: "(jsnum \<Rightarrow> jsnum) \<Rightarrow> tensor \<Rightarrow> tensor" where
  "tf_map f (Scalar x) = Scalar (f x)"
| "tf_map f (Vec xs) = Vec (map f xs)"

text \<open>
  Modelled from the spec: the elementwise operations of the tensor capability between two
  tensors, with the broadcasting of the library: a tensor of rank 0 or of one element is
  combined with every element of the other; two vectors of other, different lengths cannot
  be combined, and the operation throws (\<open>None\<close>).
\<close>

fun broadcast :: "(jsnum \<Rightarrow> jsnum \<Rightarrow> jsnum) \<Rightarrow> tensor \<Rightarrow> tensor \<Rightarrow> tensor option" where
  "broadcast f (Scalar a) (Scalar b) = Some (Scalar (f a b))"
| "broadcast f (Scalar a) (Vec ys) = Some (Vec (map (f a) ys))"
| "broadcast f (Vec xs) (Scalar b) = Some (Vec (map (\<lambda>x. f x b) xs))"
| "broadcast f (Vec xs) (Vec ys) =
     (if length xs = length ys then Some (Vec (map2 f xs ys))
      else if length xs = 1 then Some (Vec (map (f (hd xs)) ys))
      else if length ys = 1 then Some (Vec (map (\<lambda>x. f x (hd ys)) xs))
      else None)"

definition tf_add :: "tensor \<Rightarrow> tensor \<Rightarrow> tensor option" where
  "tf_add = broadcast js_add"

definition tf_sub :: "tensor \<Rightarrow> tensor \<Rightarrow> tensor option" where
  "tf_sub = broadcast js_sub"

definition tf_mul :: "tensor \<Rightarrow> tensor \<Rightarrow> tensor option" where
  "tf_mul = broadcast js_mul"

definition tf_div :: "tensor \<Rightarrow> tensor \<Rightarrow> tensor option" where
  "tf_div = broadcast js_div"

text \<open>Modelled from the spec: the elementwise square and square root.\<close>

definition square :: "tensor \<Rightarrow> tensor" where
  "square = tf_map (\<lambda>x. js_mul x x)"

definition tf_sqrt :: "tensor \<Rightarrow> tensor" where
  "tf_sqrt = tf_map js_sqrt"

text \<open>
  Modelled from the spec: the Euclidean norm, a reduction to a tensor of rank 0: the
  square root of the sum of the squares of all elements.
\<close>

fun euclidean :: "tensor \<Rightarrow> tensor" where
  "euclidean (Scalar x) = Scalar (js_abs x)"
| "euclidean (Vec xs) = Scalar (js_sqrt (foldl js_add (Fin 0) (map (\<lambda>x. js_mul x x) xs)))"

text \<open>
  \<^verbatim>\<open>tf.norm(x)\<close>: the argument is a field of a parameter, which may be unset; the library
  throws when it is given no tensor.
\<close>

definition tf_norm :: "tensor option \<Rightarrow> tensor option" where
  "tf_norm x = (case x of None \<Rightarrow> None | Some t \<Rightarrow> Some (euclidean t))"

text \<open>
  A number where the library expects a tensor (\<^verbatim>\<open>t.add(1e-8)\<close>) is converted to a tensor
  of rank 0.
\<close>

abbreviation tf_scalar :: "jsnum \<Rightarrow> tensor" where
  "tf_scalar \<equiv> Scalar"

text \<open>
  A tensor where the language expects a number: the operand of the arithmetic operator
  \<^verbatim>\<open>*\<close> is converted by the language's \<^verbatim>\<open>ToNumber\<close>. A tensor is an object with no
  numeric \<^verbatim>\<open>valueOf\<close>, and its \<^verbatim>\<open>toString()\<close> is a text that begins with the word
  \<^verbatim>\<open>Tensor\<close>, which is not the text of a number: the conversion gives NaN. Whatever the
  object, the result is one number, never a tensor.
\<close>

definition ToNumber :: "tensor \<Rightarrow> jsnum" where
  "ToNumber t = NaN"

section \<open>Parameters, optimizer state and the optimizer\<close>

text \<open>
  A parameter is an object of the caller with the two fields \<^verbatim>\<open>data\<close> and \<^verbatim>\<open>grad\<close>;
  \<^verbatim>\<open>grad\<close> may be unset. The optimizer holds references to the caller's objects, so the
  objects live in a store, and a reference is an address of the store.
\<close>

record param =
  data :: tensor
  grad :: "tensor option"

type_synonym ref = nat

type_synonym store = "ref \<Rightarrow> param"

text \<open>
  The state object that \<^verbatim>\<open>step\<close> keeps for one parameter:
  \<^verbatim>\<open>{ step, v, m, gradEMA }\<close>, where \<^verbatim>\<open>gradEMA\<close> starts as \<^verbatim>\<open>null\<close>.
\<close>

record OptimizerState =
  st_step :: nat
  st_v :: tensor
  st_m :: tensor
  st_gradEMA :: "tensor option"

text \<open>
  The optimizer object. \<^verbatim>\<open>params\<close> is the array of references given to the
  constructor, \<^verbatim>\<open>states\<close> the \<^verbatim>\<open>Map\<close> from a parameter (its identity) to its state.
\<close>

record NovoGrad =
  lr :: jsnum
  beta1 :: jsnum
  beta2 :: jsnum
  eps :: jsnum
  weightDecay :: jsnum
  gradAveraging :: bool
  momentumInitialized :: bool
  params :: "ref list"
  states :: "ref \<rightharpoonup> OptimizerState"

text \<open>The options object of the constructor; an option left out takes its default.\<close>

record options =
  opt_lr :: "jsnum option"
  opt_betas :: "(jsnum \<times> jsnum) option"
  opt_eps :: "jsnum option"
  opt_weightDecay :: "jsnum option"
  opt_gradAveraging :: "bool option"

definition default_to :: "'a \<Rightarrow> 'a option \<Rightarrow> 'a" where
  "default_to d x = (case x of None \<Rightarrow> d | Some y \<Rightarrow> y)"

text \<open>
  The constructor. The result is an option so that a throw would be \<open>None\<close>; the source
  has no \<^verbatim>\<open>throw\<close> and no check of the options.
\<close>

definition NovoGrad_constructor :: "ref list \<Rightarrow> options \<Rightarrow> NovoGrad option" where
  "NovoGrad_constructor ps opts =
     (let betas = default_to (Fin (95 / 100), Fin (98 / 100)) (opt_betas opts) in
      Some \<lparr> lr = default_to (Fin (1 / 10)) (opt_lr opts),
             beta1 = fst betas,
             beta2 = snd betas,
             eps = default_to (Fin (1 / 10 ^ 8)) (opt_eps opts),
             weightDecay = default_to (Fin 0) (opt_weightDecay opts),
             gradAveraging = default_to False (opt_gradAveraging opts),
             momentumInitialized = False,
             params = ps,
             states = Map.empty \<rparr>)"

section \<open>The method \<^verbatim>\<open>step\<close>\<close>

text \<open>
  \<^verbatim>\<open>forEach\<close> with a callback that may throw: the exception leaves the loop, and what
  the earlier iterations have written stays written.
\<close>

datatype outcome = Returned | Threw

fun forEach :: "('a \<Rightarrow> 's \<Rightarrow> 's option) \<Rightarrow> 'a list \<Rightarrow> 's \<Rightarrow> outcome \<times> 's" where
  "forEach f [] s = (Returned, s)"
| "forEach f (x # xs) s =
     (case f x s of None \<Rightarrow> (Threw, s) | Some s' \<Rightarrow> forEach f xs s')"

text \<open>
  The body of the first loop, up to the call of \<^verbatim>\<open>states.set\<close>: the state object made
  for one parameter. A method called on an unset \<^verbatim>\<open>grad\<close> throws.
\<close>

definition init_state :: "NovoGrad \<Rightarrow> param \<Rightarrow> OptimizerState option" where
  "init_state opt p = do {
     n \<leftarrow> tf_norm (grad p);
     let v = square n;
     g \<leftarrow> grad p;
     den \<leftarrow> tf_add (tf_sqrt v) (tf_scalar (eps opt));
     q \<leftarrow> tf_div g den;
     m \<leftarrow> tf_add q (tf_scalar (js_mul (weightDecay opt) (ToNumber (data p))));
     Some \<lparr> st_step = 0, st_v = v, st_m = m, st_gradEMA = None \<rparr>
   }"

definition init_param :: "ref \<Rightarrow> NovoGrad \<times> store \<Rightarrow> (NovoGrad \<times> store) option" where
  "init_param a = (\<lambda>(opt, h). do {
     st \<leftarrow> init_state opt (h a);
     Some (opt\<lparr>states := (states opt)(a \<mapsto> st)\<rparr>, h)
   })"

text \<open>The scalar \<^verbatim>\<open>stepSize\<close> of the second loop, for the \<^verbatim>\<open>step\<close> read from the state.\<close>

definition stepSize :: "NovoGrad \<Rightarrow> nat \<Rightarrow> jsnum" where
  "stepSize opt n =
     (let biasCorrection1 = js_sub (Fin 1) (js_pow (beta1 opt) (n + 1));
          biasCorrection2 = js_sub (Fin 1) (js_pow (beta2 opt) (n + 1))
      in js_div (js_mul (lr opt) (js_sqrt biasCorrection2)) biasCorrection1)"

text \<open>The new value of \<^verbatim>\<open>gradEMA\<close>: a tensor object is truthy, \<^verbatim>\<open>null\<close> is not.\<close>

definition next_gradEMA :: "NovoGrad \<Rightarrow> tensor option \<Rightarrow> tensor \<Rightarrow> tensor option" where
  "next_gradEMA opt gradEMA g2 =
     (case gradEMA of
        None \<Rightarrow> Some g2
      | Some e \<Rightarrow> do {
          a \<leftarrow> tf_mul e (tf_scalar (beta2 opt));
          b \<leftarrow> tf_mul g2 (tf_scalar (js_sub (Fin 1) (beta2 opt)));
          tf_add a b
        })"

text \<open>
  The body of the second loop up to its first assignment: the tensor that will be written
  to \<^verbatim>\<open>param.data\<close> and the values that will be written to the state object. Nothing is
  written before all of them are computed.
\<close>

definition update_values :: "NovoGrad \<Rightarrow> OptimizerState \<Rightarrow> param \<Rightarrow> (tensor \<times> OptimizerState) option" where
  "update_values opt state p = do {
     n \<leftarrow> tf_norm (grad p);
     let g2 = square n;
     gradEMA \<leftarrow> next_gradEMA opt (st_gradEMA state) g2;
     g \<leftarrow> grad p;
     den \<leftarrow> tf_add (tf_sqrt gradEMA) (tf_scalar (eps opt));
     g \<leftarrow> tf_div g den;
     g \<leftarrow> (if gradAveraging opt then tf_mul g (tf_scalar (js_sub (Fin 1) (beta1 opt))) else Some g);
     n \<leftarrow> tf_norm (Some g);
     let g2 = square n;
     a \<leftarrow> tf_mul (st_v state) (tf_scalar (beta2 opt));
     b \<leftarrow> tf_mul g2 (tf_scalar (js_sub (Fin 1) (beta2 opt)));
     v \<leftarrow> tf_add a b;
     den \<leftarrow> tf_add (tf_sqrt v) (tf_scalar (eps opt));
     q \<leftarrow> tf_div g den;
     w \<leftarrow> tf_add q (tf_scalar (js_mul (weightDecay opt) (ToNumber (data p))));
     a \<leftarrow> tf_mul (st_m state) (tf_scalar (beta1 opt));
     m \<leftarrow> tf_add a w;
     d \<leftarrow> tf_mul m (tf_scalar (stepSize opt (st_step state)));
     d \<leftarrow> tf_sub (data p) d;
     Some (d, state\<lparr> st_step := st_step state + 1, st_v := v, st_m := m, st_gradEMA := Some gradEMA \<rparr>)
   }"

text \<open>
  The body of the second loop. \<^verbatim>\<open>states.get\<close> of a parameter with no entry gives
  \<^verbatim>\<open>undefined\<close>, and destructuring it throws.
\<close>

definition update_param :: "ref \<Rightarrow> NovoGrad \<times> store \<Rightarrow> (NovoGrad \<times> store) option" where
  "update_param a = (\<lambda>(opt, h). do {
     state \<leftarrow> states opt a;
     (d, state') \<leftarrow> update_values opt state (h a);
     Some (opt\<lparr>states := (states opt)(a \<mapsto> state')\<rparr>, h(a := (h a)\<lparr>data := d\<rparr>))
   })"

text \<open>
  \<^verbatim>\<open>step()\<close>: the outcome, the optimizer and the store after the call. When the first
  loop throws, \<^verbatim>\<open>momentumInitialized\<close> is not set.
\<close>

definition step :: "NovoGrad \<Rightarrow> store \<Rightarrow> outcome \<times> NovoGrad \<times> store" where
  "step opt h =
     (if \<not> momentumInitialized opt then
        (case forEach init_param (params opt) (opt, h) of
           (Threw, s) \<Rightarrow> (Threw, s)
         | (Returned, (opt', h')) \<Rightarrow>
             forEach update_param (params opt') (opt'\<lparr>momentumInitialized := True\<rparr>, h'))
      else forEach update_param (params opt) (opt, h))"

section \<open>Calls in sequence\<close>

text \<open>
  The optimizer after one call, whatever its outcome, and after a sequence of calls.
  Between two calls the caller may write anything to its parameters, so each call is
  given the store that it finds.
\<close>

definition after_step :: "NovoGrad \<Rightarrow> store \<Rightarrow> NovoGrad" where
  "after_step opt h = fst (snd (step opt h))"

definition run :: "NovoGrad \<Rightarrow> store list \<Rightarrow> NovoGrad" where
  "run opt hs = foldl after_step opt hs"

text \<open>The optimizer that the constructor returns.\<close>

definition fresh :: "ref list \<Rightarrow> options \<Rightarrow> NovoGrad" where
  "fresh ps opts = the (NovoGrad_constructor ps opts)"

section \<open>The recurrence in the words of the specification\<close>

text \<open>
  The initial state and the update as the specification words them, over the same tensor
  operations. They are what the source is compared with, and they differ from it in one
  place: the weight decay term is the tensor \<^verbatim>\<open>weightDecay * data\<close>, the product of
  every element of \<^verbatim>\<open>data\<close> with the scalar.

  Initialization: \<^verbatim>\<open>v0 = norm(grad)^2\<close>,
  \<^verbatim>\<open>m0 = grad / (sqrt(v0) + epsilon) + weightDecay * data\<close>, and the state
  \<^verbatim>\<open>{stepCount=0, secondMoment=v0, firstMoment=m0, gradientEMA=unset}\<close>.
\<close>

definition claimed_init_state :: "NovoGrad \<Rightarrow> param \<Rightarrow> OptimizerState option" where
  "claimed_init_state opt p = do {
     g \<leftarrow> grad p;
     let v0 = square (euclidean g);
     den \<leftarrow> tf_add (tf_sqrt v0) (tf_scalar (eps opt));
     q \<leftarrow> tf_div g den;
     wd \<leftarrow> tf_mul (tf_scalar (weightDecay opt)) (data p);
     m0 \<leftarrow> tf_add q wd;
     Some \<lparr> st_step = 0, st_v = v0, st_m = m0, st_gradEMA = None \<rparr>
   }"

text \<open>The eleven steps of the update recurrence.\<close>

definition claimed_update :: "NovoGrad \<Rightarrow> OptimizerState \<Rightarrow> param \<Rightarrow> (tensor \<times> OptimizerState) option" where
  "claimed_update opt state p = do {
     g \<leftarrow> grad p;
     let g2 = square (euclidean g);
     gradEMA' \<leftarrow> (case st_gradEMA state of
                    None \<Rightarrow> Some g2
                  | Some e \<Rightarrow> do {
                      a \<leftarrow> tf_mul (tf_scalar (beta2 opt)) e;
                      b \<leftarrow> tf_mul (tf_scalar (js_sub (Fin 1) (beta2 opt))) g2;
                      tf_add a b
                    });
     den \<leftarrow> tf_add (tf_sqrt gradEMA') (tf_scalar (eps opt));
     normalizedGrad \<leftarrow> tf_div g den;
     normalizedGrad \<leftarrow> (if gradAveraging opt
                         then tf_mul normalizedGrad (tf_scalar (js_sub (Fin 1) (beta1 opt)))
                         else Some normalizedGrad);
     a \<leftarrow> tf_mul (tf_scalar (beta2 opt)) (st_v state);
     b \<leftarrow> tf_mul (tf_scalar (js_sub (Fin 1) (beta2 opt))) (square (euclidean normalizedGrad));
     v' \<leftarrow> tf_add a b;
     a \<leftarrow> tf_mul (tf_scalar (beta1 opt)) (st_m state);
     den \<leftarrow> tf_add (tf_sqrt v') (tf_scalar (eps opt));
     q \<leftarrow> tf_div normalizedGrad den;
     wd \<leftarrow> tf_mul (tf_scalar (weightDecay opt)) (data p);
     s \<leftarrow> tf_add a q;
     m' \<leftarrow> tf_add s wd;
     d \<leftarrow> tf_mul (tf_scalar (stepSize opt (st_step state))) m';
     data' \<leftarrow> tf_sub (data p) d;
     Some (data', \<lparr> st_step = st_step state + 1, st_v = v', st_m = m', st_gradEMA = Some gradEMA' \<rparr>)
   }"

text \<open>The first call for one parameter: the initialization, then the update.\<close>

definition claimed_first_step :: "NovoGrad \<Rightarrow> param \<Rightarrow> (tensor \<times> OptimizerState) option" where
  "claimed_first_step opt p = do {
     state \<leftarrow> claimed_init_state opt p;
     claimed_update opt state p
   }"

section \<open>Predicates on tensors and states\<close>

text \<open>A tensor of rank 0, and a state whose \<^verbatim>\<open>v\<close> and \<^verbatim>\<open>gradEMA\<close> are of rank 0.\<close>

fun is_scalar :: "tensor \<Rightarrow> bool" where
  "is_scalar (Scalar _) = True"
| "is_scalar (Vec _) = False"

definition scalar_state :: "OptimizerState \<Rightarrow> bool" where
  "scalar_state st =
     (is_scalar (st_v st) \<and> (case st_gradEMA st of None \<Rightarrow> True | Some e \<Rightarrow> is_scalar e))"

text \<open>
  The length of a tensor of rank 1, and whether the library can combine two tensors in an
  elementwise operation.
\<close>

fun shape_of :: "tensor \<Rightarrow> nat option" where
  "shape_of (Scalar _) = None"
| "shape_of (Vec xs) = Some (length xs)"

definition combinable :: "tensor \<Rightarrow> tensor \<Rightarrow> bool" where
  "combinable s t =
     (case (shape_of s, shape_of t) of
        (Some m, Some n) \<Rightarrow> m = n \<or> m = 1 \<or> n = 1
      | _ \<Rightarrow> True)"

text \<open>The sum of the squares of all elements of a tensor.\<close>

fun sum_squares :: "tensor \<Rightarrow> jsnum" where
  "sum_squares (Scalar x) = js_mul x x"
| "sum_squares (Vec xs) = foldl js_add (Fin 0) (map (\<lambda>x. js_mul x x) xs)"

text \<open>A number that is not negative; NaN counts as such, a sum of squares may be NaN.\<close>

fun js_nonneg :: "jsnum \<Rightarrow> bool" where
  "js_nonneg (Fin a) = (0 \<le> a)"
| "js_nonneg PInf = True"
| "js_nonneg NInf = False"
| "js_nonneg NaN = True"

text \<open>
  What holds of the optimizer between two calls: its entries belong to managed parameters,
  all managed parameters have one once the flag is set, and \<^verbatim>\<open>gradEMA\<close> is set in
  no entry before the flag is.
\<close>

definition consistent :: "ref list \<Rightarrow> NovoGrad \<Rightarrow> bool" where
  "consistent ps opt \<longleftrightarrow>
     params opt = ps \<and> dom (states opt) \<subseteq> set ps
     \<and> (momentumInitialized opt \<longrightarrow> dom (states opt) = set ps)
     \<and> (\<forall>a st. states opt a = Some st \<longrightarrow>
           scalar_state st \<and> (st_gradEMA st \<noteq> None \<longrightarrow> momentumInitialized opt))"

section \<open>The scalars of a state\<close>


text \<open>
  The two scalars that lines 34 to 45 compute from the gradient and the two scalars of the
  state: the new \<^verbatim>\<open>gradEMA\<close>, from the squared norm of the gradient, and the new
  \<^verbatim>\<open>v\<close>, from the squared norm of the normalized gradient. This is the part of
  \<open>update_values\<close> on which they depend.
\<close>

definition moments_after :: "NovoGrad \<Rightarrow> tensor \<Rightarrow> tensor option \<Rightarrow> tensor \<Rightarrow> (tensor \<times> tensor) option" where
  "moments_after opt g gradEMA v = do {
     e \<leftarrow> next_gradEMA opt gradEMA (square (euclidean g));
     den \<leftarrow> tf_add (tf_sqrt e) (tf_scalar (eps opt));
     q \<leftarrow> tf_div g den;
     gn \<leftarrow> (if gradAveraging opt then tf_mul q (tf_scalar (js_sub (Fin 1) (beta1 opt))) else Some q);
     a \<leftarrow> tf_mul v (tf_scalar (beta2 opt));
     b \<leftarrow> tf_mul (square (euclidean gn)) (tf_scalar (js_sub (Fin 1) (beta2 opt)));
     v' \<leftarrow> tf_add a b;
     Some (e, v')
   }"

text \<open>The scalars after \<open>n\<close> updates with the same gradient.\<close>

fun feed :: "NovoGrad \<Rightarrow> tensor \<Rightarrow> nat \<Rightarrow> nat \<times> tensor option \<times> tensor
    \<Rightarrow> (nat \<times> tensor option \<times> tensor) option" where
  "feed opt g 0 s = Some s"
| "feed opt g (Suc n) s = do {
     (k, e, v) \<leftarrow> feed opt g n s;
     (e', v') \<leftarrow> moments_after opt g e v;
     Some (k + 1, Some e', v')
   }"


section \<open>Example inputs\<close>

text \<open>
  The inputs at which the theorems below are evaluated: options objects, and stores whose
  first objects are the parameters of a list.
\<close>

definition no_options :: options where
  "no_options = \<lparr> opt_lr = None, opt_betas = None, opt_eps = None,
                   opt_weightDecay = None, opt_gradAveraging = None \<rparr>"

definition store_of :: "param list \<Rightarrow> store" where
  "store_of ps a = (if a < length ps then ps ! a else \<lparr> data = Vec [], grad = None \<rparr>)"

definition store_34 :: store where
  "store_34 = store_of [\<lparr> data = Vec [Fin 1, Fin 2], grad = Some (Vec [Fin 3, Fin 4]) \<rparr>]"

definition store_zero_grad :: store where
  "store_zero_grad = store_of [\<lparr> data = Vec [Fin 1, Fin 2], grad = Some (Vec [Fin 0, Fin 0]) \<rparr>]"

definition store_68 :: store where
  "store_68 = store_of [\<lparr> data = Vec [Fin 1, Fin 2], grad = Some (Vec [Fin 6, Fin 8]) \<rparr>]"

definition options_beta1_out :: options where
  "options_beta1_out = no_options\<lparr> opt_betas := Some (Fin (3 / 2), Fin (98 / 100)) \<rparr>"

definition options_decay :: options where
  "options_decay = no_options\<lparr> opt_weightDecay := Some (Fin 1) \<rparr>"

definition options_half :: options where
  "options_half = no_options\<lparr> opt_lr := Some (Fin 1), opt_betas := Some (Fin (1 / 2), Fin (24 / 25)) \<rparr>"

definition store_mismatch :: store where
  "store_mismatch = store_of [\<lparr> data = Vec [Fin 1, Fin 2], grad = Some (Vec [Fin 3, Fin 4]) \<rparr>,
                              \<lparr> data = Vec [Fin 1, Fin 2], grad = Some (Vec [Fin 1, Fin 2, Fin 3]) \<rparr>]"

definition store_two :: store where
  "store_two = store_of [\<lparr> data = Vec [Fin 1, Fin 2], grad = Some (Vec [Fin 3, Fin 4]) \<rparr>,
                         \<lparr> data = Vec [Fin 5], grad = Some (Vec [Fin 1]) \<rparr>]"

definition store_unset :: store where
  "store_unset = store_of [\<lparr> data = Vec [Fin 1, Fin 2], grad = Some (Vec [Fin 3, Fin 4]) \<rparr>,
                           \<lparr> data = Vec [Fin 5], grad = None \<rparr>]"

definition store_unset_68 :: store where
  "store_unset_68 = store_of [\<lparr> data = Vec [Fin 1, Fin 2], grad = Some (Vec [Fin 6, Fin 8]) \<rparr>,
                              \<lparr> data = Vec [Fin 5], grad = None \<rparr>]"

definition store_broadcast :: store where
  "store_broadcast = store_of [\<lparr> data = Vec [Fin 1, Fin 2], grad = Some (Vec [Fin 3]) \<rparr>]"

section \<open>Properties of the loops\<close>

lemma forEach_invariant:
  assumes "forEach f xs s = (out, s')" and "P s"
    and "\<And>x t t'. x \<in> set xs \<Longrightarrow> P t \<Longrightarrow> f x t = Some t' \<Longrightarrow> P t'"
  shows "P s'"
  using assms
proof (induction xs arbitrary: s)
  case Nil
  then show ?case by simp
next
  case (Cons x xs)
  show ?case
  proof (cases "f x s")
    case None
    with Cons.prems show ?thesis by simp
  next
    case (Some t)
    with Cons.prems have "forEach f xs t = (out, s')" by simp
    moreover have "P t" using Cons.prems Some by (meson list.set_intros(1))
    ultimately show ?thesis using Cons.IH Cons.prems(3) by (meson list.set_intros(2))
  qed
qed

lemma init_param_Some:
  assumes "init_param a (opt, h) = Some (opt', h')"
  shows "h' = h \<and> (\<exists>st. init_state opt (h a) = Some st \<and> opt' = opt\<lparr>states := (states opt)(a \<mapsto> st)\<rparr>)"
  using assms by (auto simp: init_param_def split: bind_splits)

lemma update_param_Some:
  assumes "update_param a (opt, h) = Some (opt', h')"
  shows "\<exists>st d st'. states opt a = Some st \<and> update_values opt st (h a) = Some (d, st')
           \<and> opt' = opt\<lparr>states := (states opt)(a \<mapsto> st')\<rparr> \<and> h' = h(a := (h a)\<lparr>data := d\<rparr>)"
  using assms by (auto simp: update_param_def split: bind_splits)

lemma only_states_refl: "\<exists>S. opt = opt\<lparr>states := S\<rparr>"
  by (rule exI [of _ "states opt"]) simp

lemma forEach_init_frame:
  assumes "forEach init_param ps (opt, h) = (out, (opt', h'))"
  shows "h' = h \<and> (\<exists>S. opt' = opt\<lparr>states := S\<rparr>)"
proof -
  have "(\<lambda>(ox, k). k = h \<and> (\<exists>S. ox = opt\<lparr>states := S\<rparr>)) (opt', h')"
  proof (rule forEach_invariant [OF assms])
    show "(\<lambda>(ox, k). k = h \<and> (\<exists>S. ox = opt\<lparr>states := S\<rparr>)) (opt, h)" by (simp add: only_states_refl)
  next
    fix x t t'
    assume "(\<lambda>(ox, k). k = h \<and> (\<exists>S. ox = opt\<lparr>states := S\<rparr>)) t" and "init_param x t = Some t'"
    then show "(\<lambda>(ox, k). k = h \<and> (\<exists>S. ox = opt\<lparr>states := S\<rparr>)) t'"
      by (cases t; cases t') (auto dest!: init_param_Some)
  qed
  then show ?thesis by simp
qed

lemma forEach_update_frame:
  assumes "forEach update_param ps (opt, h) = (out, (opt', h'))"
  shows "(\<exists>S. opt' = opt\<lparr>states := S\<rparr>) \<and> (\<forall>a. grad (h' a) = grad (h a)) \<and> (\<forall>a. a \<notin> set ps \<longrightarrow> h' a = h a)"
proof -
  let ?P = "\<lambda>(ox, k). (\<exists>S. ox = opt\<lparr>states := S\<rparr>) \<and> (\<forall>a. grad (k a) = grad (h a)) \<and> (\<forall>a. a \<notin> set ps \<longrightarrow> k a = h a)"
  have "?P (opt', h')"
  proof (rule forEach_invariant [OF assms])
    show "?P (opt, h)" by (simp add: only_states_refl)
  next
    fix x t t'
    assume x: "x \<in> set ps" and "?P t" and "update_param x t = Some t'"
    then show "?P t'"
      by (cases t; cases t') (auto dest!: update_param_Some)
  qed
  then show ?thesis by simp
qed

lemma js_NaN [simp]:
  "js_add x NaN = NaN" "js_mul x NaN = NaN" "js_div x NaN = NaN" "js_sub x NaN = NaN" "js_sub NaN x = NaN"
  by (cases x; simp add: js_sub_def)+

lemmas eval_defs = step_def fresh_def NovoGrad_constructor_def no_options_def default_to_def store_of_def
  init_param_def init_state_def update_param_def update_values_def next_gradEMA_def
  tf_norm_def square_def tf_add_def tf_sub_def tf_mul_def tf_div_def tf_sqrt_def ToNumber_def

subsection \<open>Tensors of rank 0\<close>

lemma is_scalar_iff: "is_scalar t \<longleftrightarrow> (\<exists>x. t = Scalar x)"
  by (cases t) simp_all

lemma euclidean_scalar [simp]: "is_scalar (euclidean t)"
  by (cases t) simp_all

lemma tf_map_scalar [simp]: "is_scalar (tf_map f t) = is_scalar t"
  by (cases t) simp_all

lemma broadcast_scalar:
  "is_scalar s \<Longrightarrow> is_scalar t \<Longrightarrow> \<exists>r. broadcast f s t = Some r \<and> is_scalar r"
  by (auto simp: is_scalar_iff)

lemma broadcast_scalar_right: "is_scalar t \<Longrightarrow> \<exists>r. broadcast f s t = Some r"
  by (cases s) (auto simp: is_scalar_iff)

lemma broadcast_scalar_result:
  "is_scalar s \<Longrightarrow> is_scalar t \<Longrightarrow> broadcast f s t = Some r \<Longrightarrow> is_scalar r"
  by (auto simp: is_scalar_iff)

subsection \<open>The bodies of the two loops\<close>

lemma init_state_states [simp]: "init_state (opt\<lparr>states := S\<rparr>) p = init_state opt p"
  by (simp add: init_state_def)

lemma init_state_flag [simp]: "init_state (opt\<lparr>momentumInitialized := b\<rparr>) p = init_state opt p"
  by (simp add: init_state_def)

lemma stepSize_states [simp]: "stepSize (opt\<lparr>states := S\<rparr>) n = stepSize opt n"
  by (simp add: stepSize_def)

lemma stepSize_flag [simp]: "stepSize (opt\<lparr>momentumInitialized := b\<rparr>) n = stepSize opt n"
  by (simp add: stepSize_def)

lemma next_gradEMA_states [simp]: "next_gradEMA (opt\<lparr>states := S\<rparr>) e g2 = next_gradEMA opt e g2"
  by (simp add: next_gradEMA_def split: option.splits)

lemma next_gradEMA_flag [simp]:
  "next_gradEMA (opt\<lparr>momentumInitialized := b\<rparr>) e g2 = next_gradEMA opt e g2"
  by (simp add: next_gradEMA_def split: option.splits)

lemma update_values_states [simp]: "update_values (opt\<lparr>states := S\<rparr>) st p = update_values opt st p"
  by (simp add: update_values_def Let_def cong: if_cong)

lemma update_values_flag [simp]:
  "update_values (opt\<lparr>momentumInitialized := b\<rparr>) st p = update_values opt st p"
  by (simp add: update_values_def Let_def cong: if_cong)

lemma init_state_None: "grad p = None \<Longrightarrow> init_state opt p = None"
  by (simp add: init_state_def tf_norm_def)

lemma init_state_Some:
  assumes "grad p = Some g"
  shows "\<exists>st. init_state opt p = Some st \<and> st_step st = 0 \<and> st_gradEMA st = None
           \<and> st_v st = square (euclidean g)"
proof -
  obtain x where x: "euclidean g = Scalar x"
    using euclidean_scalar [of g] by (auto simp: is_scalar_iff)
  obtain q where q: "tf_div g (Scalar (js_add (js_sqrt (js_mul x x)) (eps opt))) = Some q"
    using broadcast_scalar_right [of "Scalar (js_add (js_sqrt (js_mul x x)) (eps opt))" js_div g]
    by (auto simp: tf_div_def)
  obtain m where m: "tf_add q (Scalar (js_mul (weightDecay opt) (ToNumber (data p)))) = Some m"
    using broadcast_scalar_right [of "Scalar (js_mul (weightDecay opt) (ToNumber (data p)))" js_add q]
    by (auto simp: tf_add_def)
  show ?thesis
    using assms x q m
    by (simp add: init_state_def tf_norm_def square_def tf_sqrt_def tf_add_def)
qed

lemma init_state_iff: "(\<exists>st. init_state opt p = Some st) \<longleftrightarrow> grad p \<noteq> None"
  using init_state_None [of p opt] init_state_Some [of p _ opt] by (cases "grad p") auto

lemma init_state_facts:
  assumes "init_state opt p = Some st"
  shows "st_step st = 0 \<and> st_gradEMA st = None \<and> is_scalar (st_v st)
         \<and> (\<exists>g. grad p = Some g \<and> st_v st = square (euclidean g))"
proof -
  from assms obtain g where g: "grad p = Some g"
    using init_state_None [of p opt] by (cases "grad p") auto
  from init_state_Some [OF g, of opt] assms g show ?thesis
    by (auto simp: square_def)
qed

lemma update_values_None: "grad p = None \<Longrightarrow> update_values opt st p = None"
  by (simp add: update_values_def tf_norm_def)

lemma update_values_facts:
  assumes "update_values opt st p = Some (d, st')"
  shows "st_step st' = st_step st + 1
         \<and> (\<exists>g e. grad p = Some g \<and> st_gradEMA st' = Some e
               \<and> next_gradEMA opt (st_gradEMA st) (square (euclidean g)) = Some e)"
  using assms
  by (auto simp: update_values_def tf_norm_def Let_def split: bind_splits option.splits)

lemma update_values_v:
  assumes "update_values opt st p = Some (d, st')"
  shows "\<exists>g' a b. tf_mul (st_v st) (tf_scalar (beta2 opt)) = Some a
           \<and> tf_mul (square (euclidean g')) (tf_scalar (js_sub (Fin 1) (beta2 opt))) = Some b
           \<and> tf_add a b = Some (st_v st')"
  using assms
  by (auto simp: update_values_def tf_norm_def Let_def split: bind_splits option.splits) blast

lemma next_gradEMA_scalar:
  assumes "next_gradEMA opt e g2 = Some r" and "is_scalar g2"
    and "case e of None \<Rightarrow> True | Some x \<Rightarrow> is_scalar x"
  shows "is_scalar r"
  using assms
  by (auto simp: next_gradEMA_def tf_mul_def tf_add_def is_scalar_iff split: option.splits bind_splits)

lemma update_values_scalar:
  assumes "update_values opt st p = Some (d, st')" and "scalar_state st"
  shows "scalar_state st'"
proof -
  from update_values_facts [OF assms(1)] obtain g e where
    e: "st_gradEMA st' = Some e" "next_gradEMA opt (st_gradEMA st) (square (euclidean g)) = Some e"
    by auto
  have "is_scalar e"
    using next_gradEMA_scalar [OF e(2)] assms(2) by (simp add: scalar_state_def square_def)
  moreover have "is_scalar (st_v st')"
  proof -
    from update_values_v [OF assms(1)] obtain g' a b where
      a: "tf_mul (st_v st) (tf_scalar (beta2 opt)) = Some a"
      and b: "tf_mul (square (euclidean g')) (tf_scalar (js_sub (Fin 1) (beta2 opt))) = Some b"
      and ab: "tf_add a b = Some (st_v st')"
      by auto
    have "is_scalar a"
      using a assms(2) broadcast_scalar_result [of "st_v st" "tf_scalar (beta2 opt)" js_mul a]
      by (simp add: tf_mul_def scalar_state_def)
    moreover have "is_scalar b"
      using b broadcast_scalar_result [of "square (euclidean g')" "tf_scalar (js_sub (Fin 1) (beta2 opt))" js_mul b]
      by (simp add: tf_mul_def square_def)
    ultimately show ?thesis
      using ab broadcast_scalar_result [of a b js_add] by (simp add: tf_add_def)
  qed
  ultimately show ?thesis using e(1) by (simp add: scalar_state_def)
qed

subsection \<open>The first loop\<close>

lemma forEach_init_states:
  assumes "forEach init_param ps (opt, h) = (out, (opt', h'))"
  shows "(out = Returned \<longleftrightarrow> (\<forall>a\<in>set ps. grad (h a) \<noteq> None))
       \<and> (\<forall>a. a \<notin> set ps \<longrightarrow> states opt' a = states opt a)
       \<and> (\<forall>a. states opt' a = states opt a \<or> (states opt' a \<noteq> None \<and> states opt' a = init_state opt (h a)))
       \<and> (out = Returned \<longrightarrow> (\<forall>a\<in>set ps. states opt' a \<noteq> None \<and> states opt' a = init_state opt (h a)))"
  using assms
proof (induction ps arbitrary: opt)
  case Nil
  then show ?case by simp
next
  case (Cons x xs)
  show ?case
  proof (cases "init_param x (opt, h)")
    case None
    then have "grad (h x) = None"
      using init_state_iff [of opt "h x"] by (auto simp: init_param_def split: bind_splits)
    with None Cons.prems show ?thesis by auto
  next
    case (Some s)
    obtain opt1 h1 where s: "s = (opt1, h1)" by (cases s)
    from init_param_Some [of x opt h opt1 h1] Some s obtain st where
      h1: "h1 = h" and st: "init_state opt (h x) = Some st"
      and opt1: "opt1 = opt\<lparr>states := (states opt)(x \<mapsto> st)\<rparr>"
      by auto
    have g: "grad (h x) \<noteq> None" using st init_state_iff [of opt "h x"] by auto
    from Cons.prems Some s h1 have "forEach init_param xs (opt1, h) = (out, (opt', h'))" by simp
    from Cons.IH [OF this] have
      ih1: "out = Returned \<longleftrightarrow> (\<forall>a\<in>set xs. grad (h a) \<noteq> None)"
      and ih2: "\<forall>a. a \<notin> set xs \<longrightarrow> states opt' a = states opt1 a"
      and ih3: "\<forall>a. states opt' a = states opt1 a \<or> (states opt' a \<noteq> None \<and> states opt' a = init_state opt1 (h a))"
      and ih4: "out = Returned \<longrightarrow> (\<forall>a\<in>set xs. states opt' a \<noteq> None \<and> states opt' a = init_state opt1 (h a))"
      by blast+
    have i: "\<And>p. init_state opt1 p = init_state opt p" by (simp add: opt1)
    have s1: "\<And>a. states opt1 a = (if a = x then Some st else states opt a)" by (simp add: opt1)
    have c1: "out = Returned \<longleftrightarrow> (\<forall>a\<in>set (x # xs). grad (h a) \<noteq> None)"
      using ih1 g by simp
    have c2: "\<forall>a. a \<notin> set (x # xs) \<longrightarrow> states opt' a = states opt a"
      using ih2 s1 by simp
    have c3: "\<forall>a. states opt' a = states opt a \<or> (states opt' a \<noteq> None \<and> states opt' a = init_state opt (h a))"
      using ih3 s1 st i by (metis option.distinct(1))
    have c4: "out = Returned \<longrightarrow> (\<forall>a\<in>set (x # xs). states opt' a \<noteq> None \<and> states opt' a = init_state opt (h a))"
      using ih4 ih2 s1 st i by (metis option.distinct(1) set_ConsD)
    from c1 c2 c3 c4 show ?thesis by blast
  qed
qed

subsection \<open>The second loop\<close>

lemma update_param_None: "grad (h a) = None \<Longrightarrow> update_param a (opt, h) = None"
  by (simp add: update_param_def update_values_None split: bind_splits)

lemma forEach_update_unset:
  assumes "forEach update_param ps (opt, h) = (out, s)" and "a \<in> set ps" and "grad (h a) = None"
  shows "out = Threw"
  using assms
proof (induction ps arbitrary: opt h)
  case Nil
  then show ?case by simp
next
  case (Cons x xs)
  show ?case
  proof (cases "update_param x (opt, h)")
    case None
    with Cons.prems show ?thesis by simp
  next
    case (Some t)
    obtain opt1 h1 where t: "t = (opt1, h1)" by (cases t)
    from update_param_Some [of x opt h opt1 h1] Some t
    have g: "grad (h1 a) = grad (h a)" by auto
    have "a \<noteq> x" using Some Cons.prems(3) update_param_None [of h a opt] by auto
    with Cons.prems(2) have "a \<in> set xs" by simp
    moreover from Cons.prems Some t have "forEach update_param xs (opt1, h1) = (out, s)" by simp
    ultimately show ?thesis using Cons.IH g Cons.prems(3) by simp
  qed
qed

lemma forEach_update_states:
  assumes "forEach update_param ps (opt, h) = (out, (opt', h'))"
  shows "dom (states opt') = dom (states opt)
       \<and> (\<forall>a. a \<notin> set ps \<longrightarrow> states opt' a = states opt a)
       \<and> (\<forall>a st. states opt a = Some st \<longrightarrow>
            (\<exists>st'. states opt' a = Some st' \<and> st_step st \<le> st_step st'
                \<and> (st_gradEMA st \<noteq> None \<longrightarrow> st_gradEMA st' \<noteq> None)
                \<and> (scalar_state st \<longrightarrow> scalar_state st')))"
proof -
  let ?P = "\<lambda>(ox, k). dom (states ox) = dom (states opt)
       \<and> (\<forall>a. a \<notin> set ps \<longrightarrow> states ox a = states opt a)
       \<and> (\<forall>a st. states opt a = Some st \<longrightarrow>
            (\<exists>st'. states ox a = Some st' \<and> st_step st \<le> st_step st'
                \<and> (st_gradEMA st \<noteq> None \<longrightarrow> st_gradEMA st' \<noteq> None)
                \<and> (scalar_state st \<longrightarrow> scalar_state st')))"
  have "?P (opt', h')"
  proof (rule forEach_invariant [OF assms])
    show "?P (opt, h)" by simp
  next
    fix x t t'
    assume x: "x \<in> set ps" and P: "?P t" and u: "update_param x t = Some t'"
    obtain o1 h1 where t: "t = (o1, h1)" by (cases t)
    obtain o2 h2 where t': "t' = (o2, h2)" by (cases t')
    from update_param_Some [of x o1 h1 o2 h2] u t t' obtain st d st' where
      st: "states o1 x = Some st" and uv: "update_values o1 st (h1 x) = Some (d, st')"
      and o2: "o2 = o1\<lparr>states := (states o1)(x \<mapsto> st')\<rparr>"
      by auto
    have s2: "\<And>a. states o2 a = (if a = x then Some st' else states o1 a)" by (simp add: o2)
    from update_values_facts [OF uv] have
      f1: "st_step st' = st_step st + 1" and f2: "st_gradEMA st' \<noteq> None" by auto
    have f3: "scalar_state st \<Longrightarrow> scalar_state st'" using update_values_scalar [OF uv] .
    have d: "dom (states o2) = dom (states opt)"
      using P t st by (auto simp: o2)
    have n: "\<forall>a. a \<notin> set ps \<longrightarrow> states o2 a = states opt a"
      using P t x by (auto simp: s2)
    have m: "\<forall>a s0. states opt a = Some s0 \<longrightarrow>
            (\<exists>s1. states o2 a = Some s1 \<and> st_step s0 \<le> st_step s1
                \<and> (st_gradEMA s0 \<noteq> None \<longrightarrow> st_gradEMA s1 \<noteq> None)
                \<and> (scalar_state s0 \<longrightarrow> scalar_state s1))"
    proof (intro allI impI)
      fix a s0
      assume a: "states opt a = Some s0"
      with P [unfolded t prod.case] obtain s1 where s1: "states o1 a = Some s1" "st_step s0 \<le> st_step s1"
        "st_gradEMA s0 \<noteq> None \<longrightarrow> st_gradEMA s1 \<noteq> None" "scalar_state s0 \<longrightarrow> scalar_state s1"
        by blast
      show "\<exists>s1. states o2 a = Some s1 \<and> st_step s0 \<le> st_step s1
                \<and> (st_gradEMA s0 \<noteq> None \<longrightarrow> st_gradEMA s1 \<noteq> None)
                \<and> (scalar_state s0 \<longrightarrow> scalar_state s1)"
      proof (cases "a = x")
        case True
        with s1 st have "s1 = st" by simp
        with s1 f1 f2 f3 True show ?thesis by (simp add: s2)
      next
        case False
        with s1 show ?thesis by (simp add: s2)
      qed
    qed
    from d n m t' show "?P t'" by simp
  qed
  then show ?thesis by simp
qed

lemma forEach_update_distinct:
  assumes "forEach update_param ps (opt, h) = (Returned, (opt', h'))" and "distinct ps"
  shows "\<forall>a\<in>set ps. \<exists>st d st'. states opt a = Some st \<and> update_values opt st (h a) = Some (d, st')
            \<and> states opt' a = Some st' \<and> h' a = (h a)\<lparr>data := d\<rparr>"
  using assms
proof (induction ps arbitrary: opt h)
  case Nil
  then show ?case by simp
next
  case (Cons x xs)
  show ?case
  proof (cases "update_param x (opt, h)")
    case None
    with Cons.prems show ?thesis by simp
  next
    case (Some t)
    obtain opt1 h1 where t: "t = (opt1, h1)" by (cases t)
    from update_param_Some [of x opt h opt1 h1] Some t obtain st d st' where
      st: "states opt x = Some st" and uv: "update_values opt st (h x) = Some (d, st')"
      and opt1: "opt1 = opt\<lparr>states := (states opt)(x \<mapsto> st')\<rparr>"
      and h1: "h1 = h(x := (h x)\<lparr>data := d\<rparr>)"
      by auto
    from Cons.prems Some t have r: "forEach update_param xs (opt1, h1) = (Returned, (opt', h'))"
      by simp
    from Cons.prems(2) have x: "x \<notin> set xs" and dx: "distinct xs" by simp_all
    from forEach_update_states [OF r] x have sx: "states opt' x = states opt1 x" by blast
    from forEach_update_frame [OF r] x have hx: "h' x = h1 x" by blast
    have u: "\<And>s p. update_values opt1 s p = update_values opt s p" by (simp add: opt1)
    show ?thesis
    proof (intro ballI)
      fix a
      assume a: "a \<in> set (x # xs)"
      show "\<exists>st d st'. states opt a = Some st \<and> update_values opt st (h a) = Some (d, st')
            \<and> states opt' a = Some st' \<and> h' a = (h a)\<lparr>data := d\<rparr>"
      proof (cases "a = x")
        case True
        with st uv sx hx show ?thesis by (simp add: opt1 h1)
      next
        case False
        with a have "a \<in> set xs" by simp
        with Cons.IH [OF r dx] obtain s0 d0 s1 where
          "states opt1 a = Some s0" "update_values opt1 s0 (h1 a) = Some (d0, s1)"
          "states opt' a = Some s1" "h' a = (h1 a)\<lparr>data := d0\<rparr>"
          by blast
        with False u show ?thesis by (simp add: opt1 h1)
      qed
    qed
  qed
qed


subsection \<open>One call\<close>

lemma step_initialized:
  "momentumInitialized opt \<Longrightarrow> step opt h = forEach update_param (params opt) (opt, h)"
  by (simp add: step_def)

lemma step_uninitialized:
  assumes "\<not> momentumInitialized opt" and "step opt h = (out, opt', h')"
  shows "(\<exists>S. forEach init_param (params opt) (opt, h) = (Threw, (opt\<lparr>states := S\<rparr>, h))
            \<and> out = Threw \<and> opt' = opt\<lparr>states := S\<rparr> \<and> h' = h)
       \<or> (\<exists>S. forEach init_param (params opt) (opt, h) = (Returned, (opt\<lparr>states := S\<rparr>, h))
            \<and> forEach update_param (params opt) (opt\<lparr>states := S, momentumInitialized := True\<rparr>, h)
                = (out, (opt', h')))"
proof -
  obtain o1 o2 h2 where i: "forEach init_param (params opt) (opt, h) = (o1, (o2, h2))"
    by (metis prod.exhaust)
  from forEach_init_frame [OF i] obtain S where h2: "h2 = h" and o2: "o2 = opt\<lparr>states := S\<rparr>"
    by auto
  show ?thesis
  proof (cases o1)
    case Threw
    with assms i h2 o2 show ?thesis by (auto simp: step_def)
  next
    case Returned
    with assms i h2 o2 show ?thesis by (auto simp: step_def)
  qed
qed

lemma step_flag_forward:
  assumes "step opt h = (out, opt', h')"
  shows "params opt' = params opt
       \<and> (momentumInitialized opt' \<longleftrightarrow>
            momentumInitialized opt \<or> (\<forall>a\<in>set (params opt). grad (h a) \<noteq> None))"
proof (cases "momentumInitialized opt")
  case True
  with assms have "forEach update_param (params opt) (opt, h) = (out, (opt', h'))"
    by (simp add: step_initialized)
  from forEach_update_frame [OF this] True show ?thesis by auto
next
  case False
  from step_uninitialized [OF False assms] show ?thesis
  proof (elim disjE exE conjE)
    fix S
    assume i: "forEach init_param (params opt) (opt, h) = (Threw, (opt\<lparr>states := S\<rparr>, h))"
      and o: "opt' = opt\<lparr>states := S\<rparr>"
    from forEach_init_states [OF i] have "\<not> (\<forall>a\<in>set (params opt). grad (h a) \<noteq> None)" by blast
    with False o show ?thesis by simp
  next
    fix S
    assume i: "forEach init_param (params opt) (opt, h) = (Returned, (opt\<lparr>states := S\<rparr>, h))"
      and u: "forEach update_param (params opt) (opt\<lparr>states := S, momentumInitialized := True\<rparr>, h)
                = (out, (opt', h'))"
    from forEach_init_states [OF i] have g: "\<forall>a\<in>set (params opt). grad (h a) \<noteq> None" by blast
    from forEach_update_frame [OF u] obtain S' where
      "opt' = opt\<lparr>states := S, momentumInitialized := True, states := S'\<rparr>" by blast
    with g show ?thesis by simp
  qed
qed

text \<open>Where the flag is set, a call runs the second loop only.\<close>

lemma step_entries_kept:
  assumes "momentumInitialized opt" and "step opt h = (out, opt', h')"
  shows "dom (states opt') = dom (states opt)
       \<and> (\<forall>a st. states opt a = Some st \<longrightarrow>
            (\<exists>st'. states opt' a = Some st' \<and> st_step st \<le> st_step st'
                \<and> (st_gradEMA st \<noteq> None \<longrightarrow> st_gradEMA st' \<noteq> None)
                \<and> (scalar_state st \<longrightarrow> scalar_state st')))"
proof -
  from assms have "forEach update_param (params opt) (opt, h) = (out, (opt', h'))"
    by (simp add: step_initialized)
  from forEach_update_states [OF this] show ?thesis by blast
qed

lemma step_entries_updated:
  assumes "momentumInitialized opt" and "step opt h = (Returned, opt', h')"
    and "distinct (params opt)" and "a \<in> set (params opt)"
  shows "\<exists>st d st'. states opt a = Some st \<and> update_values opt st (h a) = Some (d, st')
            \<and> states opt' a = Some st' \<and> h' a = (h a)\<lparr>data := d\<rparr>"
proof -
  from assms have "forEach update_param (params opt) (opt, h) = (Returned, (opt', h'))"
    by (simp add: step_initialized)
  from forEach_update_distinct [OF this assms(3)] assms(4) show ?thesis by blast
qed


subsection \<open>Calls in sequence\<close>

lemma run_Nil [simp]: "run opt [] = opt"
  by (simp add: run_def)

lemma run_snoc [simp]: "run opt (hs @ [h]) = after_step (run opt hs) h"
  by (simp add: run_def)

lemma step_after_step: "step opt h = (fst (step opt h), after_step opt h, snd (snd (step opt h)))"
  by (simp add: after_step_def)

lemma fresh_fields [simp]:
  "params (fresh ps opts) = ps" "states (fresh ps opts) = Map.empty"
  "\<not> momentumInitialized (fresh ps opts)"
  by (simp_all add: fresh_def NovoGrad_constructor_def Let_def)

lemma consistent_fresh: "consistent ps (fresh ps opts)"
  by (simp add: consistent_def)

lemma consistent_step:
  assumes c: "consistent ps opt" and s: "step opt h = (out, opt', h')"
  shows "consistent ps opt'"
proof (cases "momentumInitialized opt")
  case True
  note k = step_entries_kept [OF True s]
  from step_flag_forward [OF s] True c have p: "params opt' = ps" "momentumInitialized opt'"
    by (simp_all add: consistent_def)
  from k c True have d: "dom (states opt') = set ps" by (simp add: consistent_def)
  have "scalar_state st'" if "states opt' a = Some st'" for a st'
  proof -
    from that k have "a \<in> dom (states opt)" by blast
    then obtain st where st: "states opt a = Some st" by blast
    with c have "scalar_state st" by (simp add: consistent_def)
    with k st that show ?thesis by fastforce
  qed
  with p d show ?thesis by (simp add: consistent_def)
next
  case False
  have old: "scalar_state st \<and> st_gradEMA st = None" if "states opt a = Some st" for a st
    using that c False unfolding consistent_def by blast
  have new: "scalar_state st \<and> st_gradEMA st = None" if "init_state opt p = Some st" for p st
    using init_state_facts [OF that] by (simp add: scalar_state_def)
  from step_uninitialized [OF False s] show ?thesis
  proof (elim disjE exE conjE)
    fix S
    assume i: "forEach init_param (params opt) (opt, h) = (Threw, (opt\<lparr>states := S\<rparr>, h))"
      and o: "opt' = opt\<lparr>states := S\<rparr>"
    note r = forEach_init_states [OF i, simplified]
    have e: "scalar_state st \<and> st_gradEMA st = None" if "S a = Some st" for a st
    proof -
      from r have "S a = states opt a \<or> (S a \<noteq> None \<and> S a = init_state opt (h a))" by simp
      with that old new show ?thesis by metis
    qed
    have d: "dom S \<subseteq> set ps"
    proof
      fix a assume "a \<in> dom S"
      show "a \<in> set ps"
      proof (rule ccontr)
        assume "a \<notin> set ps"
        with c have n: "a \<notin> set (params opt)" "states opt a = None"
          by (auto simp: consistent_def)
        with r have "S a = states opt a" by simp
        with n \<open>a \<in> dom S\<close> show False by (simp add: domIff)
      qed
    qed
    from c False o d e show ?thesis by (auto simp: consistent_def)
  next
    fix S
    assume i: "forEach init_param (params opt) (opt, h) = (Returned, (opt\<lparr>states := S\<rparr>, h))"
      and u: "forEach update_param (params opt) (opt\<lparr>states := S, momentumInitialized := True\<rparr>, h)
                = (out, (opt', h'))"
    note r = forEach_init_states [OF i, simplified]
    note k = forEach_update_states [OF u]
    have e: "scalar_state st" if "S a = Some st" for a st
    proof -
      from r have "S a = states opt a \<or> (S a \<noteq> None \<and> S a = init_state opt (h a))" by simp
      with that old new show ?thesis by metis
    qed
    have d: "dom S = set ps"
    proof
      show "dom S \<subseteq> set ps"
      proof
        fix a assume "a \<in> dom S"
        show "a \<in> set ps"
        proof (rule ccontr)
          assume "a \<notin> set ps"
          with c have n: "a \<notin> set (params opt)" "states opt a = None"
            by (auto simp: consistent_def)
          with r have "S a = states opt a" by simp
          with n \<open>a \<in> dom S\<close> show False by (simp add: domIff)
        qed
      qed
      show "set ps \<subseteq> dom S"
      proof
        fix a assume "a \<in> set ps"
        with c have "a \<in> set (params opt)" by (simp add: consistent_def)
        with r have "\<exists>y. S a = Some y" by blast
        then show "a \<in> dom S" by auto
      qed
    qed
    from step_flag_forward [OF s] c have p: "params opt' = ps" by (simp add: consistent_def)
    from forEach_update_frame [OF u] have f: "momentumInitialized opt'" by auto
    from k d have d': "dom (states opt') = set ps" by simp
    have "scalar_state st'" if "states opt' a = Some st'" for a st'
    proof -
      from that k have "a \<in> dom S" by auto
      then obtain st where st: "S a = Some st" by blast
      with e have "scalar_state st" by simp
      with k st that show ?thesis by fastforce
    qed
    with p f d' show ?thesis by (simp add: consistent_def)
  qed
qed

lemma consistent_run: "consistent ps (run (fresh ps opts) hs)"
proof (induction hs rule: rev_induct)
  case Nil
  show ?case by (simp add: consistent_fresh)
next
  case (snoc h hs)
  from consistent_step [OF snoc step_after_step] show ?case by simp
qed

subsection \<open>The squared norm\<close>

lemma js_nonneg_square [simp]: "js_nonneg (js_mul x x)"
  by (cases x) simp_all

lemma js_nonneg_add: "js_nonneg a \<Longrightarrow> js_nonneg b \<Longrightarrow> js_nonneg (js_add a b)"
  by (cases a; cases b) simp_all

lemma js_nonneg_foldl:
  "js_nonneg s \<Longrightarrow> js_nonneg (foldl js_add s (map (\<lambda>x. js_mul x x) xs))"
  by (induction xs arbitrary: s) (simp_all add: js_nonneg_add)

lemma js_sqrt_square: "js_nonneg s \<Longrightarrow> js_mul (js_sqrt s) (js_sqrt s) = s"
  by (cases s) simp_all

lemma js_abs_square: "js_mul (js_abs x) (js_abs x) = js_mul x x"
  by (cases x) simp_all

lemma square_euclidean: "square (euclidean g) = Scalar (sum_squares g)"
proof (cases g)
  case (Scalar x)
  then show ?thesis by (simp add: square_def js_abs_square)
next
  case (Vec xs)
  have "js_nonneg (foldl js_add (Fin 0) (map (\<lambda>x. js_mul x x) xs))"
    by (rule js_nonneg_foldl) simp
  with Vec show ?thesis by (simp add: square_def js_sqrt_square)
qed

section \<open>Evaluation of square roots\<close>

lemma sqrt_eq: "0 \<le> y \<Longrightarrow> y * y = x \<Longrightarrow> sqrt x = y"
  by (metis real_sqrt_abs2 abs_of_nonneg)

lemma sqrt_plus_pos [simp]: "0 \<le> x \<Longrightarrow> 0 < e \<Longrightarrow> sqrt x + e \<noteq> 0"
  using real_sqrt_ge_zero [of x] by linarith

lemmas claimed_defs = claimed_first_step_def claimed_init_state_def claimed_update_def


lemma s100: "sqrt 100 = 10" by (rule sqrt_eq) simp_all

section \<open>The update recurrence\<close>

text \<open>
  Whatever number a tensor converts to, the source adds one number to every element of the
  normalized gradient. That is never the addition of the tensor \<^verbatim>\<open>[1, 2]\<close>, which is
  \<^verbatim>\<open>weightDecay * data\<close> for \<^verbatim>\<open>weightDecay = 1\<close> and \<^verbatim>\<open>data = [1, 2]\<close>.
\<close>

lemma one_number_is_not_the_tensor:
  "tf_add (Vec [Fin a, Fin b]) (tf_scalar c) \<noteq> tf_add (Vec [Fin a, Fin b]) (Vec [Fin 1, Fin 2])"
  by (cases c) (simp_all add: tf_add_def)


section \<open>The constructor\<close>

text \<open>
  Claim C2, counterexample. The claim has the constructor throw for a decay rate outside
  (0, 1). With \<^verbatim>\<open>betas = [1.5, 0.98]\<close> the constructor returns an optimizer, whose
  \<^verbatim>\<open>beta1\<close> is 1.5.
\<close>

theorem constructor_accepts_beta1_out:
  "NovoGrad_constructor [0] options_beta1_out \<noteq> None
   \<and> beta1 (fresh [0] options_beta1_out) = Fin (3 / 2)"
  by (simp add: NovoGrad_constructor_def fresh_def options_beta1_out_def no_options_def default_to_def Let_def)

text \<open>
  Claim C2, amended. The constructor checks nothing: for every list of parameters and
  every options object it returns an optimizer, which holds the options as given (or their
  defaults), the list of parameters, no state at all and the flag
  \<^verbatim>\<open>momentumInitialized\<close> unset.
\<close>

theorem constructor_never_throws:
  "NovoGrad_constructor ps opts = Some (fresh ps opts)
   \<and> states (fresh ps opts) = Map.empty
   \<and> \<not> momentumInitialized (fresh ps opts)
   \<and> params (fresh ps opts) = ps
   \<and> lr (fresh ps opts) = default_to (Fin (1 / 10)) (opt_lr opts)
   \<and> (beta1 (fresh ps opts), beta2 (fresh ps opts)) = default_to (Fin (95 / 100), Fin (98 / 100)) (opt_betas opts)
   \<and> eps (fresh ps opts) = default_to (Fin (1 / 10 ^ 8)) (opt_eps opts)
   \<and> weightDecay (fresh ps opts) = default_to (Fin 0) (opt_weightDecay opts)
   \<and> gradAveraging (fresh ps opts) = default_to False (opt_gradAveraging opts)"
  by (simp add: NovoGrad_constructor_def fresh_def Let_def)

section \<open>Calls that throw\<close>

lemma combinable_iff: "combinable s t \<longleftrightarrow> (\<exists>r. broadcast f s t = Some r)"
  by (cases s; cases t) (auto simp: combinable_def)

lemma broadcast_shape_left:
  assumes "broadcast f s t = Some r" and "shape_of s = Some n" and "n \<noteq> 1"
  shows "shape_of r = Some n"
  using assms by (cases s; cases t) (auto split: if_splits)

lemma broadcast_shape_right:
  assumes "broadcast f s t = Some r" and "shape_of t = Some n" and "n \<noteq> 1"
  shows "shape_of r = Some n"
  using assms by (cases s; cases t) (auto split: if_splits)

lemma update_values_uncombinable:
  assumes g: "grad p = Some g" and c: "\<not> combinable (data p) g"
  shows "update_values opt st p = None"
proof (rule ccontr)
  assume "update_values opt st p \<noteq> None"
  then obtain d st' where u: "update_values opt st p = Some (d, st')" by auto
  from c obtain k n where k: "shape_of (data p) = Some k" and n: "shape_of g = Some n"
    and kn: "k \<noteq> n" "k \<noteq> 1" "n \<noteq> 1"
    by (auto simp: combinable_def split: option.splits)
  from u g obtain den q gn den2 q2 w a m d1 where
    q: "tf_div g den = Some q"
    and gn: "(if gradAveraging opt then tf_mul q (tf_scalar (js_sub (Fin 1) (beta1 opt))) else Some q) = Some gn"
    and q2: "tf_div gn den2 = Some q2"
    and w: "tf_add q2 (tf_scalar (js_mul (weightDecay opt) (ToNumber (data p)))) = Some w"
    and m: "tf_add a w = Some m"
    and d1: "tf_mul m (tf_scalar (stepSize opt (st_step st))) = Some d1"
    and d: "tf_sub (data p) d1 = Some d"
    by (auto simp: update_values_def tf_norm_def Let_def split: bind_splits)
  from broadcast_shape_left [OF q [unfolded tf_div_def] n kn(3)] have 1: "shape_of q = Some n" .
  have 2: "shape_of gn = Some n"
  proof (cases "gradAveraging opt")
    case True
    with gn have "tf_mul q (tf_scalar (js_sub (Fin 1) (beta1 opt))) = Some gn" by simp
    from broadcast_shape_left [OF this [unfolded tf_mul_def] 1 kn(3)] show ?thesis .
  next
    case False
    with gn 1 show ?thesis by simp
  qed
  from broadcast_shape_left [OF q2 [unfolded tf_div_def] 2 kn(3)] have 3: "shape_of q2 = Some n" .
  from broadcast_shape_left [OF w [unfolded tf_add_def] 3 kn(3)] have 4: "shape_of w = Some n" .
  from broadcast_shape_right [OF m [unfolded tf_add_def] 4 kn(3)] have 5: "shape_of m = Some n" .
  from broadcast_shape_left [OF d1 [unfolded tf_mul_def] 5 kn(3)] have 6: "shape_of d1 = Some n" .
  have "\<not> combinable (data p) d1" using k 6 kn by (simp add: combinable_def)
  with d show False by (simp add: tf_sub_def combinable_iff [of _ _ js_sub])
qed

lemma forEach_update_fails:
  assumes "forEach update_param ps (opt, h) = (out, s)" and "a \<in> set ps"
    and "\<And>opt st. update_values opt st (h a) = None"
  shows "out = Threw"
  using assms
proof (induction ps arbitrary: opt h)
  case Nil
  then show ?case by simp
next
  case (Cons x xs)
  show ?case
  proof (cases "update_param x (opt, h)")
    case None
    with Cons.prems show ?thesis by simp
  next
    case (Some t)
    obtain opt1 h1 where t: "t = (opt1, h1)" by (cases t)
    from update_param_Some [of x opt h opt1 h1] Some t obtain st d st' where
      u: "update_values opt st (h x) = Some (d, st')" and h1: "h1 = h(x := (h x)\<lparr>data := d\<rparr>)"
      by auto
    from u Cons.prems(3) have ax: "a \<noteq> x" by auto
    with h1 have "h1 a = h a" by simp
    with Cons.prems(3) have f: "\<And>opt st. update_values opt st (h1 a) = None" by simp
    from ax Cons.prems(2) have "a \<in> set xs" by simp
    moreover from Cons.prems Some t have "forEach update_param xs (opt1, h1) = (out, s)" by simp
    ultimately show ?thesis using Cons.IH f by blast
  qed
qed

text \<open>
  Claim C3, counterexample. No pass over the parameters precedes the writes, and a shape
  that differs raises nothing where the library can broadcast. On a second call at which
  the \<^verbatim>\<open>grad\<close> of the second parameter is unset, the call throws after the loop has
  written the \<^verbatim>\<open>data\<close> of the first parameter. On a call with a \<^verbatim>\<open>grad\<close> of one
  element for a \<^verbatim>\<open>data\<close> of two, the call returns, as the initialization and the
  recurrence of the specification do.
\<close>

theorem step_throws_after_writing:
  "fst (step (after_step (fresh [0, 1] no_options) store_two) store_unset) = Threw
   \<and> data (store_unset 0) = Vec [Fin 1, Fin 2]
   \<and> data (snd (snd (step (after_step (fresh [0, 1] no_options) store_two) store_unset)) 0) = Vec [NaN, NaN]
   \<and> data (store_broadcast 0) = Vec [Fin 1, Fin 2]
   \<and> grad (store_broadcast 0) = Some (Vec [Fin 3])
   \<and> fst (step (fresh [0] no_options) store_broadcast) = Returned
   \<and> claimed_first_step (fresh [0] no_options) (store_broadcast 0) \<noteq> None"
proof -
  have c: "fst (step (after_step (fresh [0, 1] no_options) store_two) store_unset) = Threw"
    by (simp add: eval_defs after_step_def store_two_def store_unset_def)
  have d: "data (snd (snd (step (after_step (fresh [0, 1] no_options) store_two) store_unset)) 0) = Vec [NaN, NaN]"
    by (simp add: eval_defs after_step_def store_two_def store_unset_def)
  have e: "data (store_unset 0) = Vec [Fin 1, Fin 2]" "data (store_broadcast 0) = Vec [Fin 1, Fin 2]"
    "grad (store_broadcast 0) = Some (Vec [Fin 3])"
    by (simp_all add: store_broadcast_def store_unset_def store_of_def)
  have f: "fst (step (fresh [0] no_options) store_broadcast) = Returned"
    by (simp add: eval_defs store_broadcast_def)
  have g: "claimed_first_step (fresh [0] no_options) (store_broadcast 0) \<noteq> None"
    by (simp add: claimed_defs eval_defs store_broadcast_def stepSize_def js_sub_def Let_def)
  from c d e f g show ?thesis by simp
qed

text \<open>
  Claim C3, amended. A call of \<^verbatim>\<open>step()\<close> throws if the \<^verbatim>\<open>grad\<close> of some managed
  parameter is unset, or has a shape that the library cannot combine with the shape of its
  \<^verbatim>\<open>data\<close>. Where the \<^verbatim>\<open>grad\<close> is unset and the optimizer is not yet initialized,
  the call throws in the first loop, before anything is written to any parameter: the
  store after the call is the store before it.
\<close>

theorem step_bad_grad_throws:
  assumes "a \<in> set (params opt)"
    and "grad (h a) = None \<or> (\<exists>g. grad (h a) = Some g \<and> \<not> combinable (data (h a)) g)"
    and "step opt h = (out, opt', h')"
  shows "out = Threw \<and> (grad (h a) = None \<and> \<not> momentumInitialized opt \<longrightarrow> h' = h)"
proof -
  have f: "update_values o1 st (h a) = None" for o1 st
    using assms(2) update_values_None [of "h a" o1 st] update_values_uncombinable [of "h a" _ o1 st]
    by auto
  show ?thesis
  proof (cases "momentumInitialized opt")
    case True
    with assms(3) have "forEach update_param (params opt) (opt, h) = (out, (opt', h'))"
      by (simp add: step_initialized)
    from forEach_update_fails [OF this assms(1) f] True show ?thesis by simp
  next
    case False
    from step_uninitialized [OF False assms(3)] show ?thesis
    proof (elim disjE exE conjE)
      fix S
      assume "out = Threw" and "h' = h"
      then show ?thesis by simp
    next
      fix S
      assume i: "forEach init_param (params opt) (opt, h) = (Returned, (opt\<lparr>states := S\<rparr>, h))"
        and u: "forEach update_param (params opt) (opt\<lparr>states := S, momentumInitialized := True\<rparr>, h)
                = (out, (opt', h'))"
      from forEach_update_fails [OF u assms(1) f] have t: "out = Threw" .
      from forEach_init_states [OF i] assms(1) have "grad (h a) \<noteq> None" by blast
      with t show ?thesis by blast
    qed
  qed
qed

theorem step_bad_grad_throws_witness:
  "1 \<in> set (params (fresh [0, 1] no_options)) \<and> grad (store_unset 1) = None
   \<and> \<not> momentumInitialized (fresh [0, 1] no_options)
   \<and> fst (step (fresh [0, 1] no_options) store_unset) = Threw
   \<and> snd (snd (step (fresh [0, 1] no_options) store_unset)) = store_unset
   \<and> grad (store_mismatch 1) = Some (Vec [Fin 1, Fin 2, Fin 3])
   \<and> \<not> combinable (data (store_mismatch 1)) (Vec [Fin 1, Fin 2, Fin 3])
   \<and> fst (step (fresh [0, 1] no_options) store_mismatch) = Threw"
proof -
  have a: "1 \<in> set (params (fresh [0, 1] no_options))" by simp
  have g: "grad (store_unset 1) = None" by (simp add: store_unset_def store_of_def)
  have e: "step (fresh [0, 1] no_options) store_unset =
      (fst (step (fresh [0, 1] no_options) store_unset),
       fst (snd (step (fresh [0, 1] no_options) store_unset)),
       snd (snd (step (fresh [0, 1] no_options) store_unset)))"
    by simp
  have g2: "grad (store_mismatch 1) = Some (Vec [Fin 1, Fin 2, Fin 3])"
    and c2: "\<not> combinable (data (store_mismatch 1)) (Vec [Fin 1, Fin 2, Fin 3])"
    by (simp_all add: store_mismatch_def store_of_def combinable_def)
  have e2: "step (fresh [0, 1] no_options) store_mismatch =
      (fst (step (fresh [0, 1] no_options) store_mismatch),
       fst (snd (step (fresh [0, 1] no_options) store_mismatch)),
       snd (snd (step (fresh [0, 1] no_options) store_mismatch)))"
    by simp
  from g2 c2 have b2: "grad (store_mismatch 1) = None
      \<or> (\<exists>g. grad (store_mismatch 1) = Some g \<and> \<not> combinable (data (store_mismatch 1)) g)"
    by simp
  from g have b: "grad (store_unset 1) = None
      \<or> (\<exists>g. grad (store_unset 1) = Some g \<and> \<not> combinable (data (store_unset 1)) g)"
    by simp
  from step_bad_grad_throws [OF a b e] step_bad_grad_throws [OF a b2 e2] a g g2 c2
  show ?thesis by simp
qed

section \<open>The step size\<close>

lemma js_pow_Fin: "js_pow (Fin b) n = Fin (b ^ n)"
  by (induction n) simp_all

lemma stepSize_Fin:
  assumes "lr opt = Fin l" and "beta1 opt = Fin b1" and "beta2 opt = Fin b2"
    and "0 < b1" and "b1 < 1" and "0 < b2" and "b2 < 1"
  shows "stepSize opt n = Fin (l * sqrt (1 - b2 ^ (n + 1)) / (1 - b1 ^ (n + 1)))"
proof -
  have "b1 ^ (n + 1) < 1" using assms power_Suc_less_one [of b1 n] by simp
  moreover have "b2 ^ (n + 1) < 1" using assms power_Suc_less_one [of b2 n] by simp
  ultimately show ?thesis
    using assms by (simp add: stepSize_def js_pow_Fin js_sub_def Let_def)
qed

lemma stepSize_limit:
  assumes "0 < b1" and "b1 < 1" and "0 < b2" and "b2 < (1::real)"
  shows "(\<lambda>n. l * sqrt (1 - b2 ^ (n + 1)) / (1 - b1 ^ (n + 1))) \<longlonglongrightarrow> l"
proof -
  have p1: "(\<lambda>n. b1 ^ (n + 1)) \<longlonglongrightarrow> 0"
    using assms LIMSEQ_power_zero [of b1] by (intro LIMSEQ_ignore_initial_segment) simp
  have p2: "(\<lambda>n. b2 ^ (n + 1)) \<longlonglongrightarrow> 0"
    using assms LIMSEQ_power_zero [of b2] by (intro LIMSEQ_ignore_initial_segment) simp
  have "(\<lambda>n. l * sqrt (1 - b2 ^ (n + 1)) / (1 - b1 ^ (n + 1))) \<longlonglongrightarrow> l * sqrt (1 - 0) / (1 - 0)"
    by (intro tendsto_intros p1 p2) simp
  then show ?thesis by simp
qed

lemma options_half_fields:
  "lr (fresh ps options_half) = Fin 1" "beta1 (fresh ps options_half) = Fin (1 / 2)"
  "beta2 (fresh ps options_half) = Fin (24 / 25)"
  by (simp_all add: NovoGrad_constructor_def fresh_def options_half_def no_options_def default_to_def Let_def)

text \<open>
  Claim C4, counterexample. With \<^verbatim>\<open>lr = 1\<close>, \<^verbatim>\<open>beta1 = 1/2\<close> and
  \<^verbatim>\<open>beta2 = 24/25\<close> the step size at step count 0 is 2/5, which is not
  \<^verbatim>\<open>lr * sqrt(1 - beta2) = 1/5\<close>, and at step count 1 it is 28/75, which is less:
  the step size is not increasing.
\<close>

theorem stepSize_not_increasing:
  "stepSize (fresh [] options_half) 0 = Fin (2 / 5)
   \<and> stepSize (fresh [] options_half) 0 \<noteq> Fin (1 * sqrt (1 - 24 / 25))
   \<and> stepSize (fresh [] options_half) 1 = Fin (28 / 75)
   \<and> (28 / 75 :: real) < 2 / 5"
proof -
  have a: "sqrt (1 / 25) = 1 / 5" by (rule sqrt_eq) simp_all
  have b: "sqrt (49 / 625) = 7 / 25" by (rule sqrt_eq) simp_all
  show ?thesis
    by (simp add: stepSize_def options_half_fields js_sub_def a b Let_def)
qed

text \<open>
  Claim C4, amended. For finite \<^verbatim>\<open>lr\<close> and decay rates in (0, 1), the step size at
  step count \<open>n\<close> is \<open>lr * sqrt (1 - beta2 ^ (n + 1)) / (1 - beta1 ^ (n + 1))\<close>; at step
  count 0 it is \<open>lr * sqrt (1 - beta2) / (1 - beta1)\<close>, and it tends to \<open>lr\<close> as the
  step count tends to infinity.
\<close>

theorem stepSize_start_and_limit:
  assumes "lr opt = Fin l" and "beta1 opt = Fin b1" and "beta2 opt = Fin b2"
    and "0 < b1" and "b1 < 1" and "0 < b2" and "b2 < 1"
  shows "(\<forall>n. stepSize opt n = Fin (l * sqrt (1 - b2 ^ (n + 1)) / (1 - b1 ^ (n + 1))))
    \<and> stepSize opt 0 = Fin (l * sqrt (1 - b2) / (1 - b1))
    \<and> (\<lambda>n. l * sqrt (1 - b2 ^ (n + 1)) / (1 - b1 ^ (n + 1))) \<longlonglongrightarrow> l"
  using stepSize_Fin [OF assms] stepSize_limit [OF assms(4-7)] by simp

theorem stepSize_start_and_limit_witness:
  "stepSize (fresh [] options_half) 0 = Fin (1 * sqrt (1 - 24 / 25) / (1 - 1 / 2))
   \<and> (\<lambda>n. 1 * sqrt (1 - (24 / 25) ^ (n + 1)) / (1 - (1 / 2) ^ (n + 1))) \<longlonglongrightarrow> (1::real)"
  using stepSize_start_and_limit [of "fresh [] options_half" 1 "1 / 2" "24 / 25"]
  by (simp add: options_half_fields)

section \<open>Zero gradients\<close>

text \<open>
  Claim C5, at the parameter \<^verbatim>\<open>data = [1, 2]\<close> with the zero gradient
  \<^verbatim>\<open>grad = [0, 0]\<close>, the default options and so \<^verbatim>\<open>weightDecay = 0\<close>. The claim has
  \<^verbatim>\<open>data\<close> unchanged, and so has the recurrence of the specification; the first call of
  \<^verbatim>\<open>step()\<close> returns and leaves \<^verbatim>\<open>data = [NaN, NaN]\<close>, because \<^verbatim>\<open>0 * NaN\<close> is NaN.
\<close>

theorem zero_grad_data_becomes_NaN:
  "fst (step (fresh [0] no_options) store_zero_grad) = Returned
   \<and> weightDecay (fresh [0] no_options) = Fin 0
   \<and> data (store_zero_grad 0) = Vec [Fin 1, Fin 2]
   \<and> data (snd (snd (step (fresh [0] no_options) store_zero_grad)) 0) = Vec [NaN, NaN]
   \<and> map_option fst (claimed_first_step (fresh [0] no_options) (store_zero_grad 0)) = Some (Vec [Fin 1, Fin 2])"
proof -
  have a: "fst (step (fresh [0] no_options) store_zero_grad) = Returned"
    by (simp add: eval_defs store_zero_grad_def)
  have b: "data (snd (snd (step (fresh [0] no_options) store_zero_grad)) 0) = Vec [NaN, NaN]"
    by (simp add: eval_defs store_zero_grad_def)
  have c: "map_option fst (claimed_first_step (fresh [0] no_options) (store_zero_grad 0)) = Some (Vec [Fin 1, Fin 2])"
    by (simp add: claimed_defs eval_defs store_zero_grad_def stepSize_def js_sub_def Let_def)
  have d: "weightDecay (fresh [0] no_options) = Fin 0" "data (store_zero_grad 0) = Vec [Fin 1, Fin 2]"
    by (simp_all add: eval_defs store_zero_grad_def Let_def)
  from a b c d show ?thesis by simp
qed

section \<open>The state after the first call\<close>

text \<open>
  Claim C6, counterexample. A parameter that the list holds twice is updated twice by one
  call: after the first call its step count is 2. And after a first call that throws, at
  a second parameter whose \<^verbatim>\<open>grad\<close> is unset, the step count of the first parameter
  is 0.
\<close>

theorem first_step_listed_twice:
  "fst (step (fresh [0, 0] no_options) store_34) = Returned
   \<and> map_option st_step (states (after_step (fresh [0, 0] no_options) store_34) 0) = Some 2
   \<and> fst (step (fresh [0, 1] no_options) store_unset) = Threw
   \<and> map_option st_step (states (after_step (fresh [0, 1] no_options) store_unset) 0) = Some 0"
proof -
  have a: "fst (step (fresh [0, 0] no_options) store_34) = Returned"
    by (simp add: eval_defs store_34_def)
  have b: "map_option st_step (states (after_step (fresh [0, 0] no_options) store_34) 0) = Some 2"
    by (simp add: eval_defs after_step_def store_34_def)
  have c: "fst (step (fresh [0, 1] no_options) store_unset) = Threw"
    by (simp add: eval_defs store_unset_def)
  have d: "map_option st_step (states (after_step (fresh [0, 1] no_options) store_unset) 0) = Some 0"
    by (simp add: eval_defs after_step_def store_unset_def)
  from a b c d show ?thesis by simp
qed

text \<open>
  Claim C6, amended. For every list of pairwise distinct parameters and every options
  object, if the first call of \<^verbatim>\<open>step()\<close> on the optimizer returns, then every managed
  parameter has a state whose step count is 1 and whose \<^verbatim>\<open>gradEMA\<close> is the square of the
  norm of the \<^verbatim>\<open>grad\<close> that the parameter had at the call, which is the sum of the squares
  of its elements.
\<close>

theorem first_step_state:
  assumes "distinct ps" and "step (fresh ps opts) h = (Returned, opt', h')"
  shows "\<forall>a\<in>set ps. \<exists>st g. states opt' a = Some st \<and> st_step st = 1 \<and> grad (h a) = Some g
           \<and> st_gradEMA st = Some (square (euclidean g))
           \<and> square (euclidean g) = Scalar (sum_squares g)"
proof
  fix a
  assume a: "a \<in> set ps"
  have f: "\<not> momentumInitialized (fresh ps opts)" by simp
  from step_uninitialized [OF f assms(2)] obtain S where
    i: "forEach init_param ps (fresh ps opts, h) = (Returned, ((fresh ps opts)\<lparr>states := S\<rparr>, h))"
    and u: "forEach update_param ps ((fresh ps opts)\<lparr>states := S, momentumInitialized := True\<rparr>, h)
                = (Returned, (opt', h'))"
    by auto
  from forEach_init_states [OF i, simplified] a
  have "\<exists>y. S a = Some y" and s: "S a = init_state (fresh ps opts) (h a)" by blast+
  then obtain st0 where st0: "S a = Some st0" by blast
  from init_state_facts [of "fresh ps opts" "h a" st0] s st0
  have z: "st_step st0 = 0" "st_gradEMA st0 = None" by simp_all
  from forEach_update_distinct [OF u assms(1)] a st0 obtain d st where
    uv: "update_values (fresh ps opts) st0 (h a) = Some (d, st)" and st: "states opt' a = Some st"
    by fastforce
  from update_values_facts [OF uv] z obtain g e where
    "st_step st = 1" "grad (h a) = Some g" "st_gradEMA st = Some e"
    "next_gradEMA (fresh ps opts) None (square (euclidean g)) = Some e"
    by auto
  with st show "\<exists>st g. states opt' a = Some st \<and> st_step st = 1 \<and> grad (h a) = Some g
           \<and> st_gradEMA st = Some (square (euclidean g))
           \<and> square (euclidean g) = Scalar (sum_squares g)"
    by (auto simp: next_gradEMA_def square_euclidean)
qed

theorem first_step_state_witness:
  "distinct [0, 1 :: nat]
   \<and> fst (step (fresh [0, 1] no_options) store_two) = Returned
   \<and> (\<exists>st. states (after_step (fresh [0, 1] no_options) store_two) 0 = Some st
          \<and> st_step st = 1 \<and> st_gradEMA st = Some (Scalar (Fin 25)))"
proof -
  have r: "fst (step (fresh [0, 1] no_options) store_two) = Returned"
    by (simp add: eval_defs store_two_def)
  then have e: "step (fresh [0, 1] no_options) store_two =
      (Returned, after_step (fresh [0, 1] no_options) store_two,
       snd (snd (step (fresh [0, 1] no_options) store_two)))"
    by (metis step_after_step)
  have d: "distinct [0, 1 :: nat]" by simp
  have g: "grad (store_two 0) = Some (Vec [Fin 3, Fin 4])"
    by (simp add: store_two_def store_of_def)
  from first_step_state [OF d e] g r show ?thesis
    by (fastforce simp: square_euclidean)
qed

section \<open>The entries of the state map\<close>

text \<open>
  Claim C7, counterexample. The first call throws in the first loop, at the second
  parameter, whose \<^verbatim>\<open>grad\<close> is unset: after it the second parameter has no state, the
  first one has, and the flag is not set. The next call runs the first loop again and makes
  the entry of the first parameter anew, from the \<^verbatim>\<open>grad\<close> that it now finds: its
  \<^verbatim>\<open>v\<close> is 100 where it was 25, at step count 0.
\<close>

theorem entry_made_again:
  "fst (step (fresh [0, 1] no_options) store_unset) = Threw
   \<and> states (run (fresh [0, 1] no_options) [store_unset]) 1 = None
   \<and> map_option st_v (states (run (fresh [0, 1] no_options) [store_unset]) 0) = Some (Scalar (Fin 25))
   \<and> \<not> momentumInitialized (run (fresh [0, 1] no_options) [store_unset])
   \<and> map_option st_step (states (run (fresh [0, 1] no_options) [store_unset, store_unset_68]) 0) = Some 0
   \<and> map_option st_v (states (run (fresh [0, 1] no_options) [store_unset, store_unset_68]) 0)
        = Some (Scalar (Fin 100))"
proof -
  have a: "fst (step (fresh [0, 1] no_options) store_unset) = Threw"
    by (simp add: eval_defs store_unset_def)
  have b: "states (run (fresh [0, 1] no_options) [store_unset]) 1 = None"
    by (simp add: eval_defs run_def after_step_def store_unset_def)
  have c: "map_option st_v (states (run (fresh [0, 1] no_options) [store_unset]) 0) = Some (Scalar (Fin 25))"
    by (simp add: eval_defs run_def after_step_def store_unset_def)
  have d: "\<not> momentumInitialized (run (fresh [0, 1] no_options) [store_unset])"
    by (simp add: eval_defs run_def after_step_def store_unset_def)
  have e: "map_option st_step (states (run (fresh [0, 1] no_options) [store_unset, store_unset_68]) 0) = Some 0"
    by (simp add: eval_defs run_def after_step_def store_unset_def store_unset_68_def)
  have f: "map_option st_v (states (run (fresh [0, 1] no_options) [store_unset, store_unset_68]) 0)
        = Some (Scalar (Fin 100))"
    by (simp add: eval_defs run_def after_step_def store_unset_def store_unset_68_def)
  from a b c d e f show ?thesis by simp
qed

text \<open>
  Claim C7, amended. The optimizer has no state and an unset flag when it is constructed.
  In every sequence of calls, a call sets the flag when and only when the flag is unset and
  every managed parameter has its \<^verbatim>\<open>grad\<close> set, and no call unsets it. Once the flag is
  set, the entries of the state map are those of the managed parameters, one each, before
  and after every further call, returning or throwing; the step count of an entry never
  decreases, and where the parameters are pairwise distinct and the call returns, the entry
  after the call is the update of the entry before it.
\<close>

theorem entries_once_initialized:
  "states (fresh ps opts) = Map.empty \<and> \<not> momentumInitialized (fresh ps opts)
   \<and> (momentumInitialized (run (fresh ps opts) (hs @ [h])) \<longleftrightarrow>
        momentumInitialized (run (fresh ps opts) hs) \<or> (\<forall>a\<in>set ps. grad (h a) \<noteq> None))
   \<and> (momentumInitialized (run (fresh ps opts) hs) \<longrightarrow>
        dom (states (run (fresh ps opts) hs)) = set ps
      \<and> dom (states (run (fresh ps opts) (hs @ [h]))) = set ps
      \<and> (\<forall>a\<in>set ps. \<exists>st st'. states (run (fresh ps opts) hs) a = Some st
            \<and> states (run (fresh ps opts) (hs @ [h])) a = Some st'
            \<and> st_step st \<le> st_step st'
            \<and> (distinct ps \<and> fst (step (run (fresh ps opts) hs) h) = Returned \<longrightarrow>
                 (\<exists>d. update_values (run (fresh ps opts) hs) st (h a) = Some (d, st')))))"
proof -
  define opt where "opt = run (fresh ps opts) hs"
  define opt' where "opt' = after_step opt h"
  have r: "run (fresh ps opts) (hs @ [h]) = opt'" by (simp add: opt_def opt'_def)
  have c: "consistent ps opt" unfolding opt_def by (rule consistent_run)
  then have p: "params opt = ps" by (simp add: consistent_def)
  have s: "step opt h = (fst (step opt h), opt', snd (snd (step opt h)))"
    unfolding opt'_def by (rule step_after_step)
  from step_flag_forward [OF s] p
  have f: "momentumInitialized opt' \<longleftrightarrow> momentumInitialized opt \<or> (\<forall>a\<in>set ps. grad (h a) \<noteq> None)"
    by simp
  have k: "dom (states opt) = set ps \<and> dom (states opt') = set ps
      \<and> (\<forall>a\<in>set ps. \<exists>st st'. states opt a = Some st \<and> states opt' a = Some st'
            \<and> st_step st \<le> st_step st'
            \<and> (distinct ps \<and> fst (step opt h) = Returned \<longrightarrow>
                 (\<exists>d. update_values opt st (h a) = Some (d, st'))))"
    if i: "momentumInitialized opt"
  proof -
    from c i have d: "dom (states opt) = set ps" by (simp add: consistent_def)
    note e = step_entries_kept [OF i s]
    from e d have d': "dom (states opt') = set ps" by simp
    have "\<exists>st st'. states opt a = Some st \<and> states opt' a = Some st'
            \<and> st_step st \<le> st_step st'
            \<and> (distinct ps \<and> fst (step opt h) = Returned \<longrightarrow>
                 (\<exists>d. update_values opt st (h a) = Some (d, st')))" if a: "a \<in> set ps" for a
    proof -
      from a d obtain st where st: "states opt a = Some st" by blast
      with e obtain st' where st': "states opt' a = Some st'" "st_step st \<le> st_step st'"
        by blast
      have "\<exists>d. update_values opt st (h a) = Some (d, st')"
        if "distinct ps" and "fst (step opt h) = Returned"
      proof -
        from that(2) s have "step opt h = (Returned, opt', snd (snd (step opt h)))" by simp
        from step_entries_updated [OF i this] that(1) p a st st' show ?thesis by fastforce
      qed
      with st st' show ?thesis by blast
    qed
    with d d' show ?thesis by blast
  qed
  from f k show ?thesis unfolding r unfolding opt_def [symmetric] by simp
qed

theorem entries_once_initialized_witness:
  "momentumInitialized (run (fresh [0, 1] no_options) [store_two])
   \<and> dom (states (run (fresh [0, 1] no_options) [store_two])) = {0, 1}
   \<and> momentumInitialized (run (fresh [0, 1] no_options) [store_two, store_unset])
   \<and> dom (states (run (fresh [0, 1] no_options) [store_two, store_unset])) = {0, 1}
   \<and> distinct [0, 1 :: nat]
   \<and> fst (step (run (fresh [0, 1] no_options) [store_two]) store_two) = Returned
   \<and> (\<exists>st st' d. states (run (fresh [0, 1] no_options) [store_two]) 0 = Some st
          \<and> states (run (fresh [0, 1] no_options) [store_two, store_two]) 0 = Some st'
          \<and> update_values (run (fresh [0, 1] no_options) [store_two]) st (store_two 0) = Some (d, st'))"
proof -
  have g: "\<forall>a\<in>set [0, 1 :: nat]. grad (store_two a) \<noteq> None"
    by (simp add: store_two_def store_of_def)
  from entries_once_initialized [of "[0, 1]" no_options "[]" store_two] g
  have i: "momentumInitialized (run (fresh [0, 1] no_options) [store_two])" by simp
  from entries_once_initialized [of "[0, 1]" no_options "[store_two]" store_unset] i
  have a: "dom (states (run (fresh [0, 1] no_options) [store_two])) = {0, 1}"
    "momentumInitialized (run (fresh [0, 1] no_options) [store_two, store_unset])"
    "dom (states (run (fresh [0, 1] no_options) [store_two, store_unset])) = {0, 1}"
    by auto
  have r: "fst (step (run (fresh [0, 1] no_options) [store_two]) store_two) = Returned"
    by (simp add: eval_defs run_def after_step_def store_two_def)
  have d: "distinct [0, 1 :: nat]" by simp
  from entries_once_initialized [of "[0, 1]" no_options "[store_two]" store_two] i r d
  have "\<exists>st st' d. states (run (fresh [0, 1] no_options) [store_two]) 0 = Some st
          \<and> states (run (fresh [0, 1] no_options) [store_two, store_two]) 0 = Some st'
          \<and> update_values (run (fresh [0, 1] no_options) [store_two]) st (store_two 0) = Some (d, st')"
    by fastforce
  with i a r d show ?thesis by blast
qed

section \<open>The gradient is only read\<close>

text \<open>
  Claim C8. For every managed parameter and every call of \<^verbatim>\<open>step()\<close>, whatever its
  outcome, the field \<^verbatim>\<open>grad\<close> of the parameter after the call is the one before the
  call: the method reads it and never assigns it. A parameter has the two fields
  \<^verbatim>\<open>data\<close> and \<^verbatim>\<open>grad\<close>, so \<^verbatim>\<open>data\<close> is the only field written; an object that is
  not managed is not written at all.
\<close>

theorem step_keeps_grad:
  assumes "step opt h = (out, opt', h')"
  shows "grad (h' a) = grad (h a) \<and> (a \<notin> set (params opt) \<longrightarrow> h' a = h a)"
proof (cases "momentumInitialized opt")
  case True
  with assms have "forEach update_param (params opt) (opt, h) = (out, (opt', h'))"
    by (simp add: step_def)
  from forEach_update_frame [OF this] show ?thesis by simp
next
  case False
  obtain o1 o2 h2 where i: "forEach init_param (params opt) (opt, h) = (o1, (o2, h2))"
    by (metis prod.exhaust)
  from forEach_init_frame [OF i] have h2: "h2 = h" and o2: "\<exists>S. o2 = opt\<lparr>states := S\<rparr>" by simp_all
  show ?thesis
  proof (cases o1)
    case Threw
    with False assms i h2 show ?thesis by (simp add: step_def)
  next
    case Returned
    have p: "params o2 = params opt" using o2 by auto
    from Returned False assms i h2 p
    have "forEach update_param (params opt) (o2\<lparr>momentumInitialized := True\<rparr>, h) = (out, (opt', h'))"
      by (simp add: step_def)
    from forEach_update_frame [OF this] show ?thesis by simp
  qed
qed

theorem step_keeps_grad_witness:
  "fst (step (fresh [0] no_options) store_34) = Returned
   \<and> grad (snd (snd (step (fresh [0] no_options) store_34)) 0) = Some (Vec [Fin 3, Fin 4])
   \<and> snd (snd (step (fresh [0] no_options) store_34)) 1 = store_34 1"
proof -
  have r: "fst (step (fresh [0] no_options) store_34) = Returned"
    by (simp add: eval_defs store_34_def)
  have p: "params (fresh [0] no_options) = [0]"
    by (simp add: fresh_def NovoGrad_constructor_def Let_def)
  have g: "grad (store_34 0) = Some (Vec [Fin 3, Fin 4])"
    by (simp add: store_34_def store_of_def)
  have e: "step (fresh [0] no_options) store_34 =
      (fst (step (fresh [0] no_options) store_34),
       fst (snd (step (fresh [0] no_options) store_34)),
       snd (snd (step (fresh [0] no_options) store_34)))"
    by simp
  from step_keeps_grad [OF e, of 0] g
  have a: "grad (snd (snd (step (fresh [0] no_options) store_34)) 0) = Some (Vec [Fin 3, Fin 4])"
    by simp
  from step_keeps_grad [OF e, of 1] p
  have b: "snd (snd (step (fresh [0] no_options) store_34)) 1 = store_34 1"
    by simp
  from r a b show ?thesis by simp
qed

section \<open>The values of the initialization pass\<close>

text \<open>
  Claim C9, at the parameter \<^verbatim>\<open>data = [1, 2]\<close>, \<^verbatim>\<open>grad = [6, 8]\<close> with
  \<^verbatim>\<open>weightDecay = 1\<close> and the other options at their defaults. The second moment stored by the first call is the one of the claim, computed
  from the \<^verbatim>\<open>v0\<close> of the initialization pass. The first moment is not: the
  initialization pass stores \<^verbatim>\<open>m0 = [NaN, NaN]\<close> where the claim has
  \<^verbatim>\<open>grad / (sqrt(v0) + epsilon) + weightDecay * data\<close>, two finite numbers, and the first
  moment stored by the first call is \<^verbatim>\<open>[NaN, NaN]\<close> where the claim has two finite
  numbers.
\<close>

theorem first_moment_seed_is_NaN:
  "fst (step (fresh [0] options_decay) store_68) = Returned
   \<and> map_option st_v (states (fst (snd (step (fresh [0] options_decay) store_68))) 0)
       = map_option (st_v \<circ> snd) (claimed_first_step (fresh [0] options_decay) (store_68 0))
   \<and> map_option st_m (init_state (fresh [0] options_decay) (store_68 0)) = Some (Vec [NaN, NaN])
   \<and> map_option st_m (states (fst (snd (step (fresh [0] options_decay) store_68))) 0) = Some (Vec [NaN, NaN])
   \<and> map_option st_m (claimed_init_state (fresh [0] options_decay) (store_68 0))
       = Some (Vec [Fin (6 / (10 + 1 / 10 ^ 8) + 1), Fin (8 / (10 + 1 / 10 ^ 8) + 2)])
   \<and> (\<exists>x y. map_option (st_m \<circ> snd) (claimed_first_step (fresh [0] options_decay) (store_68 0)) = Some (Vec [Fin x, Fin y]))"
proof -
  have a: "fst (step (fresh [0] options_decay) store_68) = Returned"
    by (simp add: eval_defs options_decay_def store_68_def)
  have b: "map_option st_v (states (fst (snd (step (fresh [0] options_decay) store_68))) 0)
       = map_option (st_v \<circ> snd) (claimed_first_step (fresh [0] options_decay) (store_68 0))"
    by (simp add: claimed_defs eval_defs options_decay_def store_68_def s100 js_sub_def Let_def mult.commute)
  have c: "map_option st_m (init_state (fresh [0] options_decay) (store_68 0)) = Some (Vec [NaN, NaN])"
    by (simp add: eval_defs options_decay_def store_68_def Let_def)
  have d: "map_option st_m (states (fst (snd (step (fresh [0] options_decay) store_68))) 0) = Some (Vec [NaN, NaN])"
    by (simp add: eval_defs options_decay_def store_68_def)
  have e: "map_option st_m (claimed_init_state (fresh [0] options_decay) (store_68 0))
       = Some (Vec [Fin (6 / (10 + 1 / 10 ^ 8) + 1), Fin (8 / (10 + 1 / 10 ^ 8) + 2)])"
    by (simp add: claimed_defs eval_defs options_decay_def store_68_def s100 Let_def)
  have f: "\<exists>x y. map_option (st_m \<circ> snd) (claimed_first_step (fresh [0] options_decay) (store_68 0)) = Some (Vec [Fin x, Fin y])"
    by (simp add: claimed_defs eval_defs options_decay_def store_68_def s100 stepSize_def js_sub_def Let_def)
  from a b c d e f show ?thesis by simp
qed

section \<open>The shape of the moments\<close>

lemma moments_after_states [simp]: "moments_after (opt\<lparr>states := S\<rparr>) g e v = moments_after opt g e v"
  by (simp add: moments_after_def cong: if_cong)

lemma moments_after_flag [simp]:
  "moments_after (opt\<lparr>momentumInitialized := b\<rparr>) g e v = moments_after opt g e v"
  by (simp add: moments_after_def cong: if_cong)

lemma feed_states [simp]: "feed (opt\<lparr>states := S\<rparr>) g n s = feed opt g n s"
  by (induction n) simp_all

lemma feed_flag [simp]: "feed (opt\<lparr>momentumInitialized := b\<rparr>) g n s = feed opt g n s"
  by (induction n) simp_all










end
